theory Spec2Isabelle
  imports Complex_Main
begin

section \<open>Python values and library calls used by the converter\<close>

text \<open>
  The converter of \<^verbatim>\<open>wrfcloud/runtime/tools/geojson.py\<close> is embedded function by
  function.  Python floats are modelled as \<^typ>\<open>real\<close>.  In the coordinate mapper every
  arithmetic operation is exact: the rounding of IEEE doubles after each operation is not
  modelled there.  In the computation of the contour levels, whose point is the rounding,
  every product and quotient of floats is rounded by \<open>round_double\<close>, the rounding to the
  nearest double, which is a parameter of the model.  An exception is a value \<open>Inl e\<close> of
  the result type, a normal return is \<open>Inr v\<close>.
\<close>

datatype py_error = IndexError | KeyError | ValueError | TypeError | OSError | JSONDecodeError

type_synonym 'a result = "py_error + 'a"

definition bind_result :: "'a result \<Rightarrow> ('a \<Rightarrow> 'b result) \<Rightarrow> 'b result" where
  "bind_result m f = (case m of Inl e \<Rightarrow> Inl e | Inr v \<Rightarrow> f v)"

text \<open>\<^verbatim>\<open>xs[i]\<close> on a sequence: a negative index counts from the end, an index outside
  \<open>[-n, n)\<close> raises IndexError.\<close>

definition py_index :: "'a list \<Rightarrow> int \<Rightarrow> 'a result" where
  "py_index xs i =
     (if 0 \<le> i \<and> i < int (length xs) then Inr (xs ! nat i)
      else if - int (length xs) \<le> i \<and> i < 0 then Inr (xs ! nat (int (length xs) + i))
      else Inl IndexError)"

text \<open>\<^verbatim>\<open>int(x)\<close> of a float truncates towards zero.\<close>

definition py_int :: "real \<Rightarrow> int" where
  "py_int x = (if 0 \<le> x then \<lfloor>x\<rfloor> else - \<lfloor>- x\<rfloor>)"

text \<open>\<^verbatim>\<open>round(x, 5)\<close>: the nearest multiple of \<open>10\<^sup>-\<^sup>5\<close>, a tie going to the even one.\<close>

definition round_half_even :: "real \<Rightarrow> int" where
  "round_half_even x =
     (let f = \<lfloor>x\<rfloor>; d = x - of_int f
      in if d < 1 / 2 then f else if 1 / 2 < d then f + 1 else if even f then f else f + 1)"

definition py_round5 :: "real \<Rightarrow> real" where
  "py_round5 x = of_int (round_half_even (x * 100000)) / 100000"

text \<open>A numpy array of any number of dimensions.  Indexing a scalar raises IndexError.\<close>

datatype nd = Scalar real | Arr "nd list"

fun nd_index :: "nd \<Rightarrow> int \<Rightarrow> nd result" where
  "nd_index (Scalar v) i = Inl IndexError"
| "nd_index (Arr xs) i = py_index xs i"

text \<open>The coordinate grids are two-dimensional, so a cell read with two indices is a
  number.  A cell that is still an array is outside what the readers deliver; the model
  stops there with TypeError instead of following numpy's broadcasting.\<close>

fun nd_scalar :: "nd \<Rightarrow> real result" where
  "nd_scalar (Scalar v) = Inr v"
| "nd_scalar (Arr xs) = Inl TypeError"

text \<open>A two-dimensional array given by its rows.\<close>

definition grid_of :: "real list list \<Rightarrow> nd" where
  "grid_of rs = Arr (map (\<lambda>r. Arr (map Scalar r)) rs)"

definition rect :: "nat \<Rightarrow> nat \<Rightarrow> real list list \<Rightarrow> bool" where
  "rect nrows ncols rs = (length rs = nrows \<and> list_all (\<lambda>r. length r = ncols) rs)"

section \<open>The converter object\<close>

text \<open>The fields \<^verbatim>\<open>self.min\<close> and \<^verbatim>\<open>self.max\<close> are \<open>min_value\<close> and \<open>max_value\<close>.
  \<^verbatim>\<open>__init__\<close> leaves the three grids at None; \<^verbatim>\<open>convert\<close> sets the coordinate grids.\<close>

record GeoJson =
  wrf_file :: string
  file_type :: string
  variable :: string
  z_level :: "int option"
  grid :: "nd option"
  grid_lat :: "nd option"
  grid_lon :: "nd option"
  min_value :: real
  max_value :: real
  contour_interval :: real
  palette :: string

definition init_GeoJson ::
  "string \<Rightarrow> string \<Rightarrow> string \<Rightarrow> real \<times> real \<Rightarrow> real \<Rightarrow> string \<Rightarrow> int option \<Rightarrow> GeoJson" where
  "init_GeoJson wrf ftype var value_range ci pal zl =
     \<lparr>wrf_file = wrf, file_type = ftype, variable = var, z_level = zl,
      grid = None, grid_lat = None, grid_lon = None,
      min_value = fst value_range, max_value = snd value_range,
      contour_interval = ci, palette = pal\<rparr>"

section \<open>Grid coordinates to longitude and latitude\<close>

text \<open>\<^verbatim>\<open>g[y][x]\<close> on a field of the object; subscripting None raises TypeError.\<close>

definition grid_at :: "nd option \<Rightarrow> int \<Rightarrow> int \<Rightarrow> real result" where
  "grid_at g y x =
     (case g of
        None \<Rightarrow> Inl TypeError
      | Some a \<Rightarrow> bind_result (nd_index a y) (\<lambda>row. bind_result (nd_index row x) nd_scalar))"

definition grid_to_lonlat :: "GeoJson \<Rightarrow> real \<Rightarrow> real \<Rightarrow> (real \<times> real) result" where
  "grid_to_lonlat self x y =
     (let x1 = py_int x;
          y1 = py_int y;
          x2 = (if of_int x1 \<noteq> py_round5 x then py_int x + 1 else x1);
          y2 = (if of_int y1 \<noteq> py_round5 y then py_int y + 1 else y1)
      in bind_result (grid_at (grid_lat self) y1 x1) (\<lambda>lat1.
         bind_result (grid_at (grid_lon self) y1 x1) (\<lambda>lon1.
         bind_result (grid_at (grid_lat self) y2 x2) (\<lambda>lat2.
         bind_result (grid_at (grid_lon self) y2 x2) (\<lambda>lon2.
           let x_frac = x - of_int x1;
               y_frac = y - of_int y1;
               lat = lat1 + ((lat2 - lat1) * y_frac);
               lon = lon1 + ((lon2 - lon1) * x_frac)
           in Inr (py_round5 lon, py_round5 lat))))))"

text \<open>\<^verbatim>\<open>_polygon_to_coord_array\<close>: the loop appends one mapped point per vertex and is
  left by the first vertex whose mapping raises.\<close>

fun polygon_to_coord_array :: "GeoJson \<Rightarrow> (real \<times> real) list \<Rightarrow> (real \<times> real) list result" where
  "polygon_to_coord_array self [] = Inr []"
| "polygon_to_coord_array self (point # polygon) =
     bind_result (grid_to_lonlat self (fst point) (snd point)) (\<lambda>lonlat_point.
     bind_result (polygon_to_coord_array self polygon) (\<lambda>points.
       Inr (lonlat_point # points)))"

section \<open>Contour levels\<close>

text \<open>\<^verbatim>\<open>range(start, stop, step)\<close> as the list of its elements; a step of zero raises
  ValueError.\<close>

function range_from :: "int \<Rightarrow> int \<Rightarrow> int \<Rightarrow> int list" where
  "range_from i stop step =
     (if (0 < step \<and> i < stop) \<or> (step < 0 \<and> stop < i)
      then i # range_from (i + step) stop step else [])"
  by pat_completeness auto
termination
  by (relation "measure (\<lambda>(i, stop, step). nat (if 0 < step then stop - i else i - stop))") auto

declare range_from.simps [simp del]

definition py_range :: "int \<Rightarrow> int \<Rightarrow> int \<Rightarrow> int list result" where
  "py_range start stop step = (if step = 0 then Inl ValueError else Inr (range_from start stop step))"

text \<open>Lines 68 to 71 of \<^verbatim>\<open>convert\<close>:
  \<^verbatim>\<open>levels = [i/10 for i in range(int(min*10), int(max*10), int(contour_interval*10))]\<close>.
  The products \<^verbatim>\<open>min*10\<close>, \<^verbatim>\<open>max*10\<close>, \<^verbatim>\<open>contour_interval*10\<close> and every quotient \<^verbatim>\<open>i/10\<close>
  are float operations: the exact result rounded by \<open>rd\<close> to the nearest double.  (The double
  nearest to 0.7 lies below 0.7; its exact product with 10 lies below 7 and is rounded to
  7.0, so its truncated tenth is 7.)\<close>

definition levels :: "(real \<Rightarrow> real) \<Rightarrow> GeoJson \<Rightarrow> real list result" where
  "levels rd self =
     (let range_min = py_int (rd (min_value self * 10));
          range_max = py_int (rd (max_value self * 10));
          ci = py_int (rd (contour_interval self * 10))
      in bind_result (py_range range_min range_max ci) (\<lambda>r.
           Inr (map (\<lambda>i. rd (of_int i / 10)) r)))"

section \<open>The MultiPolygon coordinate string\<close>

text \<open>\<^verbatim>\<open>sep.join(items)\<close>, and \<^verbatim>\<open>str\<close> of a list whose items are already rendered: the items
  separated by a comma and a space, in square brackets.  The rendering of a float,
  \<^verbatim>\<open>repr\<close>, is a parameter.\<close>

fun join :: "string \<Rightarrow> string list \<Rightarrow> string" where
  "join sep [] = []"
| "join sep [x] = x"
| "join sep (x # y # ys) = x @ sep @ join sep (y # ys)"

definition str_list :: "string list \<Rightarrow> string" where
  "str_list items = ''['' @ join '', '' items @ '']''"

text \<open>\<^verbatim>\<open>str([[point[0], point[1]] for point in polygon])\<close>\<close>

definition str_points :: "(real \<Rightarrow> string) \<Rightarrow> (real \<times> real) list \<Rightarrow> string" where
  "str_points float_repr polygon =
     str_list (map (\<lambda>point. str_list [float_repr (fst point), float_repr (snd point)]) polygon)"

definition polygon_and_holes_to_multi_polygon ::
  "(real \<Rightarrow> string) \<Rightarrow> (real \<times> real) list \<Rightarrow> (real \<times> real) list list \<Rightarrow> string" where
  "polygon_and_holes_to_multi_polygon float_repr polygon holes =
     (let mp_str = str_points float_repr polygon;
          mp_str = foldl (\<lambda>acc hole. acc @ '','' @ str_points float_repr hole) mp_str holes
      in ''['' @ mp_str @ '']'')"

section \<open>Reading JSON arrays of numbers\<close>

text \<open>
  \<^verbatim>\<open>json.loads\<close> on the part of JSON that the coordinate string can hold: arrays and
  numbers, with white space between the tokens.  Any other text is reported as
  JSONDecodeError (the library also reads objects, strings and literals, which a
  coordinate string never contains).  The value of a number literal, as \<^verbatim>\<open>float\<close> or
  \<^verbatim>\<open>int\<close> compute it, is the parameter \<open>number_value\<close>.
\<close>

datatype json = JNumber real | JArray "json list"

datatype token = TOpen | TClose | TComma | TNumber string | TInvalid char

definition is_ws :: "char \<Rightarrow> bool" where
  "is_ws c = (c = CHR '' '' \<or> c = CHR 0x09 \<or> c = CHR 0x0A \<or> c = CHR 0x0D)"

definition is_digit :: "char \<Rightarrow> bool" where
  "is_digit c = (c \<in> set ''0123456789'')"

definition is_number_char :: "char \<Rightarrow> bool" where
  "is_number_char c =
     (is_digit c \<or> c = CHR ''-'' \<or> c = CHR ''+'' \<or> c = CHR ''.'' \<or> c = CHR ''e'' \<or> c = CHR ''E'')"

text \<open>The grammar of a JSON number: an optional minus, an integer part without a
  leading zero, an optional fraction, an optional exponent.\<close>

fun digits_then :: "(string \<Rightarrow> bool) \<Rightarrow> string \<Rightarrow> bool" where
  "digits_then k [] = k []"
| "digits_then k (c # cs) = (if is_digit c then digits_then k cs else k (c # cs))"

definition digits1_then :: "(string \<Rightarrow> bool) \<Rightarrow> string \<Rightarrow> bool" where
  "digits1_then k s = (case s of [] \<Rightarrow> False | c # cs \<Rightarrow> is_digit c \<and> digits_then k cs)"

definition exponent_part :: "string \<Rightarrow> bool" where
  "exponent_part s =
     (case s of
        [] \<Rightarrow> True
      | c # cs \<Rightarrow>
          (c = CHR ''e'' \<or> c = CHR ''E'') \<and>
          (case cs of
             [] \<Rightarrow> False
           | d # ds \<Rightarrow>
               if d = CHR ''+'' \<or> d = CHR ''-'' then digits1_then (\<lambda>r. r = []) ds
               else digits1_then (\<lambda>r. r = []) cs))"

definition fraction_part :: "string \<Rightarrow> bool" where
  "fraction_part s =
     (case s of
        [] \<Rightarrow> True
      | c # cs \<Rightarrow> if c = CHR ''.'' then digits1_then exponent_part cs else exponent_part s)"

definition integer_part :: "string \<Rightarrow> bool" where
  "integer_part s =
     (case s of
        [] \<Rightarrow> False
      | c # cs \<Rightarrow>
          if c = CHR ''0'' then fraction_part cs
          else is_digit c \<and> digits_then fraction_part cs)"

definition json_number :: "string \<Rightarrow> bool" where
  "json_number s = (case s of [] \<Rightarrow> False | c # cs \<Rightarrow> if c = CHR ''-'' then integer_part cs else integer_part s)"

text \<open>The scanner: \<open>buf\<close> holds, reversed, the characters of the number being read.\<close>

definition flush :: "string \<Rightarrow> token list" where
  "flush buf = (if buf = [] then [] else [TNumber (rev buf)])"

fun scan :: "string \<Rightarrow> string \<Rightarrow> token list" where
  "scan buf [] = flush buf"
| "scan buf (c # cs) =
     (if is_number_char c then scan (c # buf) cs
      else flush buf @
        (if is_ws c then scan [] cs
         else if c = CHR ''['' then TOpen # scan [] cs
         else if c = CHR '']'' then TClose # scan [] cs
         else if c = CHR '','' then TComma # scan [] cs
         else TInvalid c # scan [] cs))"

text \<open>The parser is a stack machine over the tokens: the stack holds, innermost first,
  the elements read so far of every array still open, each list reversed.\<close>

datatype parse_mode = Value | ValueOrClose | AfterValue | Done json

fun add_value :: "json \<Rightarrow> json list list \<Rightarrow> parse_mode \<times> json list list" where
  "add_value v [] = (Done v, [])"
| "add_value v (frame # stack) = (AfterValue, (v # frame) # stack)"

definition expects_value :: "parse_mode \<Rightarrow> bool" where
  "expects_value m = (m = Value \<or> m = ValueOrClose)"

fun parse_step ::
  "(string \<Rightarrow> real) \<Rightarrow> parse_mode \<times> json list list \<Rightarrow> token \<Rightarrow> (parse_mode \<times> json list list) option" where
  "parse_step number_value (m, stack) TOpen =
     (if expects_value m then Some (ValueOrClose, [] # stack) else None)"
| "parse_step number_value (m, stack) (TNumber s) =
     (if expects_value m \<and> json_number s then Some (add_value (JNumber (number_value s)) stack)
      else None)"
| "parse_step number_value (m, stack) TClose =
     (if m = ValueOrClose \<or> m = AfterValue
      then (case stack of [] \<Rightarrow> None | frame # rest \<Rightarrow> Some (add_value (JArray (rev frame)) rest))
      else None)"
| "parse_step number_value (m, stack) TComma =
     (if m = AfterValue \<and> stack \<noteq> [] then Some (Value, stack) else None)"
| "parse_step number_value (m, stack) (TInvalid c) = None"

fun parse_tokens ::
  "(string \<Rightarrow> real) \<Rightarrow> parse_mode \<times> json list list \<Rightarrow> token list \<Rightarrow> (parse_mode \<times> json list list) option" where
  "parse_tokens number_value st [] = Some st"
| "parse_tokens number_value st (t # ts) =
     (case parse_step number_value st t of
        None \<Rightarrow> None
      | Some st' \<Rightarrow> parse_tokens number_value st' ts)"

definition json_loads :: "(string \<Rightarrow> real) \<Rightarrow> string \<Rightarrow> json result" where
  "json_loads number_value s =
     (case parse_tokens number_value (Value, []) (scan [] s) of
        Some (Done v, []) \<Rightarrow> Inr v
      | _ \<Rightarrow> Inl JSONDecodeError)"

section \<open>The collaborators of one conversion\<close>

text \<open>
  What the converter calls and does not implement is a parameter of the model:
  \<^item> \<open>netcdf_dataset\<close> is \<^verbatim>\<open>netCDF4.Dataset(path)\<close>: the variables of the file by name;
  \<^item> \<open>pygrib_open\<close> is \<^verbatim>\<open>pygrib.open(path)\<close>: for a short name, the \<^verbatim>\<open>values\<close> of the
    messages that \<^verbatim>\<open>select(shortName=...)\<close> finds, in the file's order;
  \<^item> \<open>contourf\<close> is \<^verbatim>\<open>pyplot.contourf(grid, levels=levels, cmap=palette)\<close>, read the way
    \<^verbatim>\<open>convert\<close> reads it: one band per entry of \<^verbatim>\<open>collections\<close>, with the hex colour
    \<^verbatim>\<open>colors.rgb2hex(tcolors[i][0])\<close> and, for every path of \<^verbatim>\<open>get_paths()\<close>, the polygons
    of \<^verbatim>\<open>to_polygons()\<close>;
  \<^item> \<open>float_repr\<close> and \<open>number_value\<close> are \<^verbatim>\<open>repr\<close> of a float and the value of a JSON
    number literal;
  \<^item> \<open>open_wb\<close> tells whether \<^verbatim>\<open>open(out_file, 'wb')\<close> succeeds;
  \<^item> \<open>round_double\<close> is the rounding of a real number to the nearest double, which every
    float operation applies to its exact result.
\<close>

type_synonym polygon = "(real \<times> real) list"

record contour_band =
  level_color :: string
  get_paths :: "polygon list list"

record env =
  netcdf_dataset :: "string \<Rightarrow> (string \<Rightarrow> nd option) result"
  pygrib_open :: "string \<Rightarrow> (string \<Rightarrow> nd list) result"
  contourf :: "nd \<Rightarrow> real list \<Rightarrow> string \<Rightarrow> contour_band list result"
  float_repr :: "real \<Rightarrow> string"
  number_value :: "string \<Rightarrow> real"
  open_wb :: "string \<Rightarrow> bool"
  round_double :: "real \<Rightarrow> real"

section \<open>The readers\<close>

text \<open>The truth value of \<^verbatim>\<open>self.z_level\<close>: None and 0 are false.\<close>

definition truthy :: "int option \<Rightarrow> bool" where
  "truthy z = (case z of None \<Rightarrow> False | Some n \<Rightarrow> n \<noteq> 0)"

text \<open>\<^verbatim>\<open>wrf[name]\<close> on a dataset raises IndexError for a name the file does not have.\<close>

definition dataset_getitem :: "(string \<Rightarrow> nd option) \<Rightarrow> string \<Rightarrow> nd result" where
  "dataset_getitem wrf name = (case wrf name of None \<Rightarrow> Inl IndexError | Some v \<Rightarrow> Inr v)"

definition read_from_netcdf :: "env \<Rightarrow> GeoJson \<Rightarrow> (nd \<times> nd \<times> nd) result" where
  "read_from_netcdf e self =
     bind_result (netcdf_dataset e (wrf_file self)) (\<lambda>wrf.
     bind_result (dataset_getitem wrf (variable self)) (\<lambda>data.
     let time_index = 0 in
     bind_result
       (if truthy (z_level self)
        then bind_result (nd_index data time_index) (\<lambda>d. nd_index d (the (z_level self)))
        else nd_index data time_index) (\<lambda>grid_v.
     bind_result (bind_result (dataset_getitem wrf ''XLAT'') (\<lambda>v. nd_index v 0)) (\<lambda>lat.
     bind_result (bind_result (dataset_getitem wrf ''XLONG'') (\<lambda>v. nd_index v 0)) (\<lambda>lon.
       Inr (grid_v, lat, lon))))))"

text \<open>\<^verbatim>\<open>select\<close> raises ValueError when no message matches.\<close>

definition grib_select :: "(string \<Rightarrow> nd list) \<Rightarrow> string \<Rightarrow> nd list result" where
  "grib_select wrf short_name = (if wrf short_name = [] then Inl ValueError else Inr (wrf short_name))"

fun nd_minus :: "nd \<Rightarrow> real \<Rightarrow> nd" where
  "nd_minus (Scalar v) c = Scalar (v - c)"
| "nd_minus (Arr xs) c = Arr (map (\<lambda>a. nd_minus a c) xs)"

definition read_from_grib :: "env \<Rightarrow> GeoJson \<Rightarrow> (nd \<times> nd \<times> nd) result" where
  "read_from_grib e self =
     bind_result (pygrib_open e (wrf_file self)) (\<lambda>wrf.
     bind_result (bind_result (grib_select wrf (variable self))
        (\<lambda>found. py_index found (if truthy (z_level self) then the (z_level self) else 0))) (\<lambda>values.
     bind_result (bind_result (grib_select wrf ''nlat'') (\<lambda>found. py_index found 0)) (\<lambda>lat.
     bind_result (bind_result (grib_select wrf ''elon'') (\<lambda>found. py_index found 0)) (\<lambda>lon.
       Inr (values, lat, nd_minus lon 360)))))"

section \<open>One conversion\<close>

record geometry =
  geometry_type :: string
  coordinates :: json

record feature =
  feature_type :: string
  feature_geometry :: geometry
  fill :: string

record feature_collection =
  doc_type :: string
  features :: "feature list"

text \<open>What a call of \<^verbatim>\<open>convert\<close> that does not raise leaves behind: the value it
  returns (None or the document), the file it wrote, if any (the document stands for its
  compressed JSON text), and the message it logged as an error, if any.  The
  informational message logged on entry is left out.\<close>

record convert_output =
  returned :: "feature_collection option"
  written :: "(string \<times> feature_collection) option"
  logged_error :: "string option"

text \<open>A list comprehension whose element expression can raise.\<close>

fun map_result :: "('a \<Rightarrow> 'b result) \<Rightarrow> 'a list \<Rightarrow> 'b list result" where
  "map_result f [] = Inr []"
| "map_result f (x # xs) =
     bind_result (f x) (\<lambda>y. bind_result (map_result f xs) (\<lambda>ys. Inr (y # ys)))"

text \<open>The body of the inner loop (lines 85 to 116): None stands for \<^verbatim>\<open>continue\<close>.\<close>

definition path_feature :: "env \<Rightarrow> GeoJson \<Rightarrow> string \<Rightarrow> polygon list \<Rightarrow> feature option result" where
  "path_feature e self color path_polygons =
     (case path_polygons of
        [] \<Rightarrow> Inr None
      | first_polygon # remaining \<Rightarrow>
          bind_result (polygon_to_coord_array self first_polygon) (\<lambda>outer_polygon.
          bind_result (map_result (polygon_to_coord_array self) remaining) (\<lambda>holes.
          let polygon_string = polygon_and_holes_to_multi_polygon (float_repr e) outer_polygon holes
          in bind_result (json_loads (number_value e) polygon_string) (\<lambda>loaded.
               Inr (Some \<lparr>feature_type = ''Feature'',
                          feature_geometry =
                            \<lparr>geometry_type = ''MultiPolygon'', coordinates = JArray [loaded]\<rparr>,
                          fill = color\<rparr>)))))"

text \<open>The loop over the paths of one band, and the loop over the bands; \<open>acc\<close> is the
  list \<^verbatim>\<open>features\<close>.\<close>

fun paths_loop :: "env \<Rightarrow> GeoJson \<Rightarrow> string \<Rightarrow> polygon list list \<Rightarrow> feature list \<Rightarrow> feature list result" where
  "paths_loop e self color [] acc = Inr acc"
| "paths_loop e self color (path # paths) acc =
     bind_result (path_feature e self color path) (\<lambda>made.
       paths_loop e self color paths (case made of None \<Rightarrow> acc | Some f \<Rightarrow> acc @ [f]))"

fun bands_loop :: "env \<Rightarrow> GeoJson \<Rightarrow> contour_band list \<Rightarrow> feature list \<Rightarrow> feature list result" where
  "bands_loop e self [] acc = Inr acc"
| "bands_loop e self (contour_line # contours) acc =
     bind_result (paths_loop e self (level_color contour_line) (get_paths contour_line) acc)
       (\<lambda>acc'. bands_loop e self contours acc')"

definition convert :: "env \<Rightarrow> GeoJson \<Rightarrow> string option \<Rightarrow> convert_output result" where
  "convert e self out_file =
     (let reading =
            (if file_type self = ''grib2'' then Some (read_from_grib e self)
             else if file_type self = ''netcdf'' then Some (read_from_netcdf e self)
             else None)
      in case reading of
           None \<Rightarrow>
             Inr \<lparr>returned = None, written = None,
                  logged_error = Some (''Invalid file type: '' @ file_type self @
                    ''.  Valid types are \"netcdf\" and \"grib2\".'')\<rparr>
         | Some grids \<Rightarrow>
             bind_result grids (\<lambda>(grid_v, lat, lon).
             let self = self\<lparr>grid_lat := Some lat, grid_lon := Some lon\<rparr> in
             bind_result (levels (round_double e) self) (\<lambda>lv.
             bind_result (contourf e grid_v lv (palette self)) (\<lambda>contours.
             bind_result (bands_loop e self contours []) (\<lambda>fs.
             let doc = \<lparr>doc_type = ''FeatureCollection'', features = fs\<rparr> in
             (case out_file of
                None \<Rightarrow> Inr \<lparr>returned = Some doc, written = None, logged_error = None\<rparr>
              | Some path \<Rightarrow>
                  if open_wb e path
                  then Inr \<lparr>returned = None, written = Some (path, doc), logged_error = None\<rparr>
                  else Inl OSError))))))"

section \<open>Manual and batch mode\<close>

text \<open>\<^verbatim>\<open>_manual_product\<close> builds one converter and runs it; what it prints is the document
  that \<^verbatim>\<open>convert\<close> returned.\<close>

definition manual_product ::
  "env \<Rightarrow> string \<Rightarrow> string \<Rightarrow> string option \<Rightarrow> string \<Rightarrow> real \<times> real \<Rightarrow> real \<Rightarrow> string
     \<Rightarrow> int option \<Rightarrow> convert_output result" where
  "manual_product e wrf ftype out_file var value_range ci pal zl =
     convert e (init_GeoJson wrf ftype var value_range ci pal zl) out_file"

text \<open>\<^verbatim>\<open>str\<close> of an integer, for the name of the output file.\<close>

definition digit_char :: "nat \<Rightarrow> char" where
  "digit_char d = char_of (48 + d)"

function str_nat :: "nat \<Rightarrow> string" where
  "str_nat n = (if n < 10 then [digit_char n] else str_nat (n div 10) @ [digit_char (n mod 10)])"
  by pat_completeness auto
termination
  by (relation "measure id") auto

declare str_nat.simps [simp del]

definition str_int :: "int \<Rightarrow> string" where
  "str_int i = (if i < 0 then CHR ''-'' # str_nat (nat (- i)) else str_nat (nat i))"

text \<open>One entry of \<^verbatim>\<open>geojson_products.yaml\<close>.  \<open>product_variable\<close> is
  \<^verbatim>\<open>product[file_type]['variable']\<close>, a KeyError where the entry has no such key;
  \<open>z_levels\<close> is None where the entry has no \<^verbatim>\<open>z_levels\<close>.\<close>

record product =
  product_variable :: "string \<Rightarrow> string option"
  product_range :: "real \<times> real"
  product_contour_interval :: real
  product_palette :: string
  z_levels :: "int list option"

text \<open>A future of the process pool: the task it was submitted with and the outcome of
  \<^verbatim>\<open>converter.convert(out_file)\<close> in the worker.  Tasks share no state, so the outcome of
  a task does not depend on when the pool runs it.\<close>

record future =
  task_converter :: GeoJson
  task_out_file :: string
  outcome :: "convert_output result"

definition submit :: "env \<Rightarrow> GeoJson \<Rightarrow> string \<Rightarrow> future" where
  "submit e converter out_file =
     \<lparr>task_converter = converter, task_out_file = out_file,
      outcome = convert e converter (Some out_file)\<rparr>"

definition product_futures :: "env \<Rightarrow> string \<Rightarrow> string \<Rightarrow> string \<Rightarrow> product \<Rightarrow> future list" where
  "product_futures e wrf ftype var p =
     map (\<lambda>zl.
            let out_file = (case zl of None \<Rightarrow> wrf @ ''_'' @ var
                            | Some z \<Rightarrow> wrf @ ''_'' @ var @ ''_'' @ str_int z) @ ''.geojson.gz''
            in submit e (init_GeoJson wrf ftype var (product_range p)
                           (product_contour_interval p) (product_palette p) zl) out_file)
         (case z_levels p of None \<Rightarrow> [None] | Some zs \<Rightarrow> map Some zs)"

text \<open>The loop that creates the products: it returns the futures submitted so far and,
  when \<^verbatim>\<open>product[file_type]\<close> raised, the error.\<close>

fun submit_products ::
  "env \<Rightarrow> string \<Rightarrow> string \<Rightarrow> product list \<Rightarrow> future list \<Rightarrow> future list \<times> unit result" where
  "submit_products e wrf ftype [] futures = (futures, Inr ())"
| "submit_products e wrf ftype (p # products) futures =
     (case product_variable p ftype of
        None \<Rightarrow> (futures, Inl KeyError)
      | Some var \<Rightarrow>
          submit_products e wrf ftype products (futures @ product_futures e wrf ftype var p))"

text \<open>\<^verbatim>\<open>for future in futures: future.result()\<close>: \<^verbatim>\<open>result()\<close> raises what the task
  raised.\<close>

fun wait_results :: "future list \<Rightarrow> unit result" where
  "wait_results [] = Inr ()"
| "wait_results (f # futures) =
     (case outcome f of Inl err \<Rightarrow> Inl err | Inr v \<Rightarrow> wait_results futures)"

text \<open>\<^verbatim>\<open>_automate_products\<close>: the futures it submitted, and how the call ends.\<close>

definition automate_products :: "env \<Rightarrow> product list \<Rightarrow> string \<Rightarrow> string \<Rightarrow> future list \<times> unit result" where
  "automate_products e products wrf ftype =
     (case submit_products e wrf ftype products [] of
        (futures, Inl err) \<Rightarrow> (futures, Inl err)
      | (futures, Inr u) \<Rightarrow> (futures, wait_results futures))"

section \<open>Notions used to state the properties\<close>

text \<open>The position that a Python index selects in a sequence of length \<open>n\<close>, and the
  indices that do not raise.\<close>

definition wrap_index :: "nat \<Rightarrow> int \<Rightarrow> nat" where
  "wrap_index n i = nat (if i < 0 then int n + i else i)"

definition in_index_range :: "nat \<Rightarrow> int \<Rightarrow> bool" where
  "in_index_range n i = (- int n \<le> i \<and> i < int n)"

text \<open>The index of the second corner, lines 195 and 196 of \<^verbatim>\<open>_grid_to_lonlat\<close>.\<close>

definition upper_index :: "real \<Rightarrow> int" where
  "upper_index x = (if of_int (py_int x) \<noteq> py_round5 x then py_int x + 1 else py_int x)"

text \<open>A point of grid-index space inside the extent \<open>[0, cols-1] \<times> [0, rows-1]\<close>.\<close>

definition in_extent :: "nat \<Rightarrow> nat \<Rightarrow> real \<times> real \<Rightarrow> bool" where
  "in_extent nrows ncols p =
     (0 \<le> fst p \<and> fst p \<le> real ncols - 1 \<and> 0 \<le> snd p \<and> snd p \<le> real nrows - 1)"

text \<open>The error that awaiting a future raises, if any.\<close>

definition failure :: "future \<Rightarrow> py_error option" where
  "failure f = (case outcome f of Inl err \<Rightarrow> Some err | Inr v \<Rightarrow> None)"

text \<open>The JSON value of a ring of points, and of the outer ring followed by the holes.\<close>

definition point_json :: "real \<times> real \<Rightarrow> json" where
  "point_json point = JArray [JNumber (fst point), JNumber (snd point)]"

definition ring_json :: "(real \<times> real) list \<Rightarrow> json" where
  "ring_json ring = JArray (map point_json ring)"

definition rings_json :: "(real \<times> real) list \<Rightarrow> (real \<times> real) list list \<Rightarrow> json" where
  "rings_json polygon holes = JArray (map ring_json (polygon # holes))"

text \<open>A float whose \<^verbatim>\<open>repr\<close> is a JSON number literal that reads back as the float: what
  holds of every finite float.\<close>

definition reads_back :: "(real \<Rightarrow> string) \<Rightarrow> (string \<Rightarrow> real) \<Rightarrow> real \<Rightarrow> bool" where
  "reads_back repr_of value_of v = (json_number (repr_of v) \<and> value_of (repr_of v) = v)"

definition ring_reads_back :: "(real \<Rightarrow> string) \<Rightarrow> (string \<Rightarrow> real) \<Rightarrow> (real \<times> real) list \<Rightarrow> bool" where
  "ring_reads_back repr_of value_of ring =
     list_all (\<lambda>point. reads_back repr_of value_of (fst point) \<and> reads_back repr_of value_of (snd point)) ring"

text \<open>Inside an array, the text \<open>s\<close> before a comma or a closing bracket is read as the
  value \<open>v\<close>.\<close>

definition parses_as :: "(string \<Rightarrow> real) \<Rightarrow> string \<Rightarrow> json \<Rightarrow> bool" where
  "parses_as value_of s v =
     (\<forall>c rest m frame stack.
        (c = CHR '','' \<or> c = CHR '']'') \<and> expects_value m \<longrightarrow>
        parse_tokens value_of (m, frame # stack) (scan [] (s @ c # rest)) =
        parse_tokens value_of (AfterValue, (v # frame) # stack) (scan [] (c # rest)))"



text \<open>A rounding to the nearest double leaves every double as it is; the numbers
  \<open>m / 2 ^ k\<close> with \<open>\<bar>m\<bar> < 2 ^ 53\<close> and \<open>k \<le> 1074\<close> are doubles.\<close>

definition exact_on_doubles :: "(real \<Rightarrow> real) \<Rightarrow> bool" where
  "exact_on_doubles rd =
     (\<forall>m k. \<bar>m\<bar> < 2 ^ 53 \<and> k \<le> 1074 \<longrightarrow> rd (of_int m / 2 ^ k) = of_int m / 2 ^ k)"

text \<open>The mapper as the specification words it: \<open>x2 = x1 + 1\<close> unless \<open>x\<close> is, within the
  tolerance, an integer, in which case \<open>x2 = x1\<close>.  The tolerance taken is that of
  \<^verbatim>\<open>round(x, 5)\<close>, half a unit of the fifth decimal, on either side of the integer.\<close>

definition near_integer :: "real \<Rightarrow> bool" where
  "near_integer x = (\<bar>x - of_int (round x)\<bar> \<le> 1 / 200000)"

definition spec_upper_index :: "real \<Rightarrow> int" where
  "spec_upper_index x = (if near_integer x then \<lfloor>x\<rfloor> else \<lfloor>x\<rfloor> + 1)"

definition spec_grid_to_lonlat :: "real list list \<Rightarrow> real list list \<Rightarrow> real \<Rightarrow> real \<Rightarrow> real \<times> real" where
  "spec_grid_to_lonlat lat lon x y =
     (let x1 = \<lfloor>x\<rfloor>;
          y1 = \<lfloor>y\<rfloor>;
          x2 = spec_upper_index x;
          y2 = spec_upper_index y;
          lat1 = lat ! nat y1 ! nat x1;
          lon1 = lon ! nat y1 ! nat x1;
          lat2 = lat ! nat y2 ! nat x2;
          lon2 = lon ! nat y2 ! nat x2;
          x_frac = x - of_int x1;
          y_frac = y - of_int y1
      in (py_round5 (lon1 + (lon2 - lon1) * x_frac), py_round5 (lat1 + (lat2 - lat1) * y_frac)))"


text \<open>The path of the file that the task of a future wrote, if it wrote one.\<close>

definition written_path :: "future \<Rightarrow> string option" where
  "written_path f = (case outcome f of Inl err \<Rightarrow> None | Inr out \<Rightarrow> map_option fst (written out))"

section \<open>Example data\<close>

text \<open>Coordinate grids of two rows and two columns, a converter that holds them, and a
  ring around the grid.\<close>

definition ex_lat :: "real list list" where
  "ex_lat = [[40, 40], [41, 41]]"

definition ex_lon :: "real list list" where
  "ex_lon = [[10, 11], [10, 11]]"

definition ex_self :: GeoJson where
  "ex_self = (init_GeoJson ''wrfout'' ''netcdf'' ''T2'' (0, 2) (1 / 2) ''jet'' None)
     \<lparr>grid_lat := Some (grid_of ex_lat), grid_lon := Some (grid_of ex_lon)\<rparr>"

definition ex_ring :: "(real \<times> real) list" where
  "ex_ring = [(0, 0), (1, 0), (1, 1), (0, 1)]"

text \<open>An environment: a NetCDF file \<^verbatim>\<open>wrfout\<close> with a two-dimensional variable \<^verbatim>\<open>T2\<close>, a
  variable \<^verbatim>\<open>T\<close> with two vertical levels and the coordinate variables; a GRIB2 file with
  two messages of short name \<^verbatim>\<open>t\<close>; a contouring capability that returns the bands it is
  given; \<^verbatim>\<open>repr\<close> and the value of a number literal on the coordinates of the example
  grids; and a rounding that leaves the numbers of the examples, which are doubles, as
  they are.\<close>

definition ex_repr :: "real \<Rightarrow> string" where
  "ex_repr v = (if v = 10 then ''10.0'' else if v = 11 then ''11.0''
                else if v = 40 then ''40.0'' else if v = 41 then ''41.0'' else ''nan'')"

definition ex_number_value :: "string \<Rightarrow> real" where
  "ex_number_value s = (if s = ''10.0'' then 10 else if s = ''11.0'' then 11
                        else if s = ''40.0'' then 40 else if s = ''41.0'' then 41 else 0)"

definition ex_dataset :: "string \<Rightarrow> nd option" where
  "ex_dataset name =
     (if name = ''T2'' then Some (Arr [grid_of [[0, 0], [0, 1]]])
      else if name = ''T'' then Some (Arr [Arr [grid_of [[0, 0], [0, 1]], grid_of [[2, 2], [2, 3]]]])
      else if name = ''XLAT'' then Some (Arr [grid_of ex_lat])
      else if name = ''XLONG'' then Some (Arr [grid_of ex_lon])
      else None)"

definition ex_messages :: "string \<Rightarrow> nd list" where
  "ex_messages short_name =
     (if short_name = ''t'' then [grid_of [[0, 0], [0, 1]], grid_of [[2, 2], [2, 3]]]
      else if short_name = ''nlat'' then [grid_of ex_lat]
      else if short_name = ''elon'' then [grid_of [[370, 371], [370, 371]]]
      else [])"

definition ex_env :: "contour_band list \<Rightarrow> env" where
  "ex_env bands =
     \<lparr>netcdf_dataset = (\<lambda>path. if path = ''wrfout'' then Inr ex_dataset else Inl OSError),
      pygrib_open = (\<lambda>path. if path = ''wrfout.grib2'' then Inr ex_messages else Inl OSError),
      contourf = (\<lambda>g lv pal. Inr bands),
      float_repr = ex_repr,
      number_value = ex_number_value,
      open_wb = (\<lambda>path. True),
      round_double = (\<lambda>v. v)\<rparr>"

text \<open>Two bands: the first with the ring and a path without polygons, the second with
  the ring and a one-point hole, and a path whose only polygon has no point.\<close>

definition ex_bands :: "contour_band list" where
  "ex_bands =
     [\<lparr>level_color = ''#000080'', get_paths = [[ex_ring], []]\<rparr>,
      \<lparr>level_color = ''#800000'', get_paths = [[ex_ring, [(1, 1)]], [[]]]\<rparr>]"

text \<open>A converter for the variable with vertical levels.\<close>

definition ex_T :: "int option \<Rightarrow> GeoJson" where
  "ex_T z = init_GeoJson ''wrfout'' ''netcdf'' ''T'' (0, 2) (1 / 2) ''jet'' z"

text \<open>A converter with a file type that is neither of the two supported ones, and product
  definitions for the batch mode: \<open>ex_product zs ci\<close> is the three-dimensional variable at
  the levels \<open>zs\<close> with contour interval \<open>ci\<close>.  The NetCDF file has two levels, so level 5
  cannot be read.\<close>

definition ex_hdf :: GeoJson where
  "ex_hdf = init_GeoJson ''wrfout'' ''hdf5'' ''T'' (0, 2) (1 / 2) ''jet'' None"

definition ex_product :: "int list \<Rightarrow> real \<Rightarrow> product" where
  "ex_product zs ci =
     \<lparr>product_variable = (\<lambda>ftype. if ftype = ''netcdf'' then Some ''T''
                                  else if ftype = ''grib2'' then Some ''t'' else None),
      product_range = (0, 2),
      product_contour_interval = ci,
      product_palette = ''jet'',
      z_levels = Some zs\<rparr>"

definition ex_products_one_failure :: "product list" where
  "ex_products_one_failure = [ex_product [1, 5] (1 / 2), ex_product [1, - 1] (1 / 2), ex_product [- 2, 1] (1 / 2)]"

definition ex_products_two_failures :: "product list" where
  "ex_products_two_failures = [ex_product [1, 5] (1 / 2), ex_product [1, - 1] (1 / 2), ex_product [- 2, 1] 0]"





text \<open>A converter for the GRIB2 file, and a product definition without levels.\<close>

definition ex_grib :: "int option \<Rightarrow> GeoJson" where
  "ex_grib z = init_GeoJson ''wrfout.grib2'' ''grib2'' ''t'' (0, 2) (1 / 2) ''jet'' z"

definition ex_product_no_levels :: product where
  "ex_product_no_levels = (ex_product [] (1 / 2))\<lparr>z_levels := None\<rparr>"

section \<open>Properties of the mapper and of the ring transform\<close>

lemma bind_result_Inr [simp]: "bind_result (Inr v) f = f v"
  by (simp add: bind_result_def)

lemma bind_result_Inl [simp]: "bind_result (Inl e) f = Inl e"
  by (simp add: bind_result_def)

lemma bind_result_eq_Inr:
  "bind_result m f = Inr r \<longleftrightarrow> (\<exists>v. m = Inr v \<and> f v = Inr r)"
  by (cases m) simp_all

lemma round_half_even_bounds:
  "\<bar>of_int (round_half_even x) - x\<bar> \<le> 1 / 2"
  unfolding round_half_even_def Let_def
  by (auto simp: abs_if; linarith)

lemma py_round5_error: "\<bar>py_round5 x - x\<bar> \<le> 1 / 200000"
proof -
  have "\<bar>of_int (round_half_even (x * 100000)) - x * 100000\<bar> \<le> 1 / 2"
    by (rule round_half_even_bounds)
  then show ?thesis
    unfolding py_round5_def by (simp add: abs_if field_simps split: if_splits)
qed

lemma py_index_eq:
  "py_index xs i = (if in_index_range (length xs) i then Inr (xs ! wrap_index (length xs) i) else Inl IndexError)"
  by (auto simp: py_index_def in_index_range_def wrap_index_def Let_def)

lemma grid_at_grid_of_wrap:
  assumes "rect nrows ncols g"
  shows "grid_at (Some (grid_of g)) y x =
     (if in_index_range nrows y \<and> in_index_range ncols x
      then Inr (g ! wrap_index nrows y ! wrap_index ncols x) else Inl IndexError)"
proof (cases "in_index_range nrows y")
  case False
  with assms show ?thesis
    by (simp add: grid_at_def grid_of_def py_index_eq rect_def)
next
  case True
  with assms have ly: "wrap_index nrows y < length g"
    by (auto simp: rect_def in_index_range_def wrap_index_def)
  with assms have lx: "length (g ! wrap_index nrows y) = ncols"
    by (simp add: rect_def list_all_length)
  have "wrap_index ncols x < ncols" if "in_index_range ncols x"
    using that by (auto simp: in_index_range_def wrap_index_def)
  then show ?thesis using assms True ly lx
    by (simp add: grid_at_def grid_of_def py_index_eq rect_def)
qed

lemma grid_to_lonlat_grid_of:
  assumes "rect nrows ncols lat" "rect nrows ncols lon"
    and "grid_lat self = Some (grid_of lat)" "grid_lon self = Some (grid_of lon)"
  shows "grid_to_lonlat self x y =
     (if in_index_range ncols (py_int x) \<and> in_index_range ncols (upper_index x) \<and>
         in_index_range nrows (py_int y) \<and> in_index_range nrows (upper_index y)
      then Inr (py_round5 (lon ! wrap_index nrows (py_int y) ! wrap_index ncols (py_int x) +
                  (lon ! wrap_index nrows (upper_index y) ! wrap_index ncols (upper_index x) -
                   lon ! wrap_index nrows (py_int y) ! wrap_index ncols (py_int x)) * (x - of_int (py_int x))),
                py_round5 (lat ! wrap_index nrows (py_int y) ! wrap_index ncols (py_int x) +
                  (lat ! wrap_index nrows (upper_index y) ! wrap_index ncols (upper_index x) -
                   lat ! wrap_index nrows (py_int y) ! wrap_index ncols (py_int x)) * (y - of_int (py_int y))))
      else Inl IndexError)"
  unfolding grid_to_lonlat_def Let_def assms(3,4)
    grid_at_grid_of_wrap [OF assms(1)] grid_at_grid_of_wrap [OF assms(2)]
  by (simp add: upper_index_def)

lemma py_round5_eq_floor_iff:
  "py_round5 x = of_int \<lfloor>x\<rfloor> \<longleftrightarrow> x - of_int \<lfloor>x\<rfloor> \<le> 1 / 200000"
proof -
  define n where "n = \<lfloor>x\<rfloor>"
  define d where "d = x - of_int n"
  have d: "0 \<le> d" "d < 1" unfolding d_def n_def by linarith+
  have x: "x * 100000 = of_int (n * 100000) + d * 100000"
    unfolding d_def by simp
  define m where "m = \<lfloor>d * 100000\<rfloor>"
  define r where "r = d * 100000 - of_int m"
  have r: "0 \<le> r" "r < 1" unfolding r_def m_def by linarith+
  have m0: "0 \<le> m" unfolding m_def using d by simp
  have fl: "\<lfloor>x * 100000\<rfloor> = n * 100000 + m"
  proof (rule floor_unique)
    show "of_int (n * 100000 + m) \<le> x * 100000"
      using r(1) unfolding x r_def by simp
    show "x * 100000 < of_int (n * 100000 + m) + 1"
      using r(2) unfolding x r_def by simp
  qed
  have frac: "x * 100000 - of_int (n * 100000 + m) = r"
    by (simp add: r_def d_def algebra_simps)
  have ev: "even (n * 100000 + m) \<longleftrightarrow> even m" by simp
  have rhe: "round_half_even (x * 100000) =
      (if r < 1 / 2 then n * 100000 + m else if 1 / 2 < r then n * 100000 + m + 1
       else if even m then n * 100000 + m else n * 100000 + m + 1)"
    by (simp only: round_half_even_def Let_def fl frac ev)
  have "py_round5 x = of_int n \<longleftrightarrow> round_half_even (x * 100000) = n * 100000"
  proof -
    have "real_of_int k / 100000 = real_of_int n \<longleftrightarrow> k = n * 100000" for k
    proof -
      have "real_of_int k / 100000 = real_of_int n \<longleftrightarrow> real_of_int k = real_of_int (n * 100000)"
        by (simp add: field_simps)
      then show ?thesis by (simp only: of_int_eq_iff)
    qed
    then show ?thesis unfolding py_round5_def .
  qed
  also have "\<dots> \<longleftrightarrow> (m = 0 \<and> r \<le> 1 / 2)"
    unfolding rhe using m0 by auto
  also have "\<dots> \<longleftrightarrow> d * 100000 \<le> 1 / 2"
  proof
    assume "m = 0 \<and> r \<le> 1 / 2"
    then show "d * 100000 \<le> 1 / 2" unfolding r_def by simp
  next
    assume a: "d * 100000 \<le> 1 / 2"
    with d have "m = 0" unfolding m_def by (simp add: floor_eq_iff)
    with a show "m = 0 \<and> r \<le> 1 / 2" unfolding r_def by simp
  qed
  finally have "py_round5 x = of_int n \<longleftrightarrow> d * 100000 \<le> 1 / 2" .
  moreover have "d * 100000 \<le> 1 / 2 \<longleftrightarrow> d \<le> 1 / 200000" by auto
  ultimately show ?thesis unfolding n_def d_def by blast
qed

lemma upper_index_nonneg:
  assumes "0 \<le> x"
  shows "upper_index x = (if x - of_int \<lfloor>x\<rfloor> \<le> 1 / 200000 then \<lfloor>x\<rfloor> else \<lfloor>x\<rfloor> + 1)"
  using assms py_round5_eq_floor_iff [of x]
  by (auto simp: upper_index_def py_int_def)

lemma upper_index_in_bounds:
  assumes "0 \<le> x" "x \<le> real n - 1"
  shows "0 \<le> \<lfloor>x\<rfloor>" "\<lfloor>x\<rfloor> \<le> upper_index x" "upper_index x < int n"
proof -
  show "0 \<le> \<lfloor>x\<rfloor>" using assms by simp
  show "\<lfloor>x\<rfloor> \<le> upper_index x" using assms by (simp add: upper_index_nonneg)
  have "\<lfloor>x\<rfloor> \<le> \<lfloor>real_of_int (int n - 1)\<rfloor>"
    by (rule floor_mono) (use assms in simp)
  then have le: "\<lfloor>x\<rfloor> \<le> int n - 1" by simp
  show "upper_index x < int n"
  proof (cases "\<lfloor>x\<rfloor> = int n - 1")
    case True
    with assms have "x - of_int \<lfloor>x\<rfloor> \<le> 0" by simp
    then show ?thesis using assms True by (simp add: upper_index_nonneg)
  next
    case False
    with le have "\<lfloor>x\<rfloor> + 1 < int n" by simp
    then show ?thesis using assms by (simp add: upper_index_nonneg)
  qed
qed

lemma wrap_index_nonneg: "0 \<le> i \<Longrightarrow> wrap_index n i = nat i"
  by (simp add: wrap_index_def)

text \<open>
  Claim C4, as amended.  On coordinate grids of \<open>nrows\<close> rows and \<open>ncols\<close> columns, for
  every \<open>(x, y)\<close> with \<open>0 \<le> x \<le> ncols - 1\<close> and \<open>0 \<le> y \<le> nrows - 1\<close> the mapper returns,
  and returns exactly the diagonal blend: with \<open>x1 = floor x\<close>, \<open>y1 = floor y\<close>, and
  \<open>x2 = x1\<close> when \<open>x\<close> exceeds \<open>x1\<close> by at most \<open>0.000005\<close> (the test \<^verbatim>\<open>x1 != round(x, 5)\<close>)
  and \<open>x2 = x1 + 1\<close> otherwise, also when \<open>x\<close> is just below the next integer, the same for
  \<open>y2\<close>, it reads the grids at the two corners \<open>(y1, x1)\<close> and \<open>(y2, x2)\<close> only and returns
  \<open>(round(lon1 + (lon2 - lon1) * (x - x1), 5), round(lat1 + (lat2 - lat1) * (y - y1), 5))\<close>.
\<close>

theorem grid_to_lonlat_diagonal_blend:
  assumes "rect nrows ncols lat" and "rect nrows ncols lon"
    and "grid_lat self = Some (grid_of lat)" and "grid_lon self = Some (grid_of lon)"
    and "0 \<le> x" and "x \<le> real ncols - 1" and "0 \<le> y" and "y \<le> real nrows - 1"
  shows "grid_to_lonlat self x y =
     (let x1 = \<lfloor>x\<rfloor>;
          y1 = \<lfloor>y\<rfloor>;
          x2 = (if x - of_int x1 \<le> 1 / 200000 then x1 else x1 + 1);
          y2 = (if y - of_int y1 \<le> 1 / 200000 then y1 else y1 + 1);
          lat1 = lat ! nat y1 ! nat x1;
          lon1 = lon ! nat y1 ! nat x1;
          lat2 = lat ! nat y2 ! nat x2;
          lon2 = lon ! nat y2 ! nat x2;
          x_frac = x - of_int x1;
          y_frac = y - of_int y1
      in Inr (py_round5 (lon1 + (lon2 - lon1) * x_frac),
              py_round5 (lat1 + (lat2 - lat1) * y_frac)))"
proof -
  note bx = upper_index_in_bounds [OF assms(5,6)]
  note by' = upper_index_in_bounds [OF assms(7,8)]
  have px: "py_int x = \<lfloor>x\<rfloor>" and py: "py_int y = \<lfloor>y\<rfloor>"
    using assms(5,7) by (simp_all add: py_int_def)
  have ux0: "0 \<le> upper_index x" and uy0: "0 \<le> upper_index y"
    using bx by' by linarith+
  have ix: "in_index_range ncols \<lfloor>x\<rfloor>" "in_index_range ncols (upper_index x)"
    unfolding in_index_range_def using bx by linarith+
  have iy: "in_index_range nrows \<lfloor>y\<rfloor>" "in_index_range nrows (upper_index y)"
    unfolding in_index_range_def using by' by linarith+
  note w = wrap_index_nonneg [OF bx(1)] wrap_index_nonneg [OF by'(1)]
    wrap_index_nonneg [OF ux0] wrap_index_nonneg [OF uy0]
  have "grid_to_lonlat self x y =
      Inr (py_round5 (lon ! nat \<lfloor>y\<rfloor> ! nat \<lfloor>x\<rfloor> +
             (lon ! nat (upper_index y) ! nat (upper_index x) - lon ! nat \<lfloor>y\<rfloor> ! nat \<lfloor>x\<rfloor>) *
             (x - of_int \<lfloor>x\<rfloor>)),
           py_round5 (lat ! nat \<lfloor>y\<rfloor> ! nat \<lfloor>x\<rfloor> +
             (lat ! nat (upper_index y) ! nat (upper_index x) - lat ! nat \<lfloor>y\<rfloor> ! nat \<lfloor>x\<rfloor>) *
             (y - of_int \<lfloor>y\<rfloor>)))"
    unfolding grid_to_lonlat_grid_of [OF assms(1-4)] px py
    by (simp only: ix iy w simp_thms if_True)
  then show ?thesis
    unfolding Let_def upper_index_nonneg [OF assms(5)] upper_index_nonneg [OF assms(7)] .
qed

lemma ex_rect: "rect 2 2 ex_lat" "rect 2 2 ex_lon"
  by (simp_all add: rect_def ex_lat_def ex_lon_def)

lemma ex_grids: "grid_lat ex_self = Some (grid_of ex_lat)" "grid_lon ex_self = Some (grid_of ex_lon)"
  by (simp_all add: ex_self_def)

theorem grid_to_lonlat_diagonal_blend_witness:
  "rect 2 2 ex_lat \<and> rect 2 2 ex_lon \<and>
   grid_lat ex_self = Some (grid_of ex_lat) \<and> grid_lon ex_self = Some (grid_of ex_lon) \<and>
   (0::real) \<le> 1 / 2 \<and> (1 / 2 :: real) \<le> real 2 - 1 \<and>
   grid_to_lonlat ex_self (1 / 2) (1 / 4) = Inr (21 / 2, 161 / 4)"
proof -
  have b: "(0::real) \<le> 1 / 2" "(1 / 2 :: real) \<le> real 2 - 1" "(0::real) \<le> 1 / 4" "(1 / 4 :: real) \<le> real 2 - 1"
    by simp_all
  have "grid_to_lonlat ex_self (1 / 2) (1 / 4) = Inr (21 / 2, 161 / 4)"
    using grid_to_lonlat_diagonal_blend [OF ex_rect ex_grids b]
    by (simp add: Let_def ex_lat_def ex_lon_def py_round5_def round_half_even_def)
  with ex_rect ex_grids b show ?thesis by simp
qed

text \<open>
  The claim as the specification states it fails: \<open>x = 0.9999999\<close> is an integer within
  the tolerance, so the stated rule takes \<open>x2 = x1 = 0\<close> and gives the longitude 10 of
  column 0, while the mapper takes \<open>x2 = 1\<close> and returns the longitude 11.
\<close>

theorem grid_to_lonlat_tolerance_counterexample:
  "in_extent 2 2 (9999999 / 10000000, 0) \<and>
   near_integer (9999999 / 10000000) \<and>
   spec_grid_to_lonlat ex_lat ex_lon (9999999 / 10000000) 0 = (10, 40) \<and>
   grid_to_lonlat ex_self (9999999 / 10000000) 0 = Inr (11, 40)"
proof -
  have a: "in_extent 2 2 (9999999 / 10000000, 0)"
    by (simp add: in_extent_def)
  have b: "near_integer (9999999 / 10000000)"
    by (simp add: near_integer_def round_def)
  have c: "spec_grid_to_lonlat ex_lat ex_lon (9999999 / 10000000) 0 = (10, 40)"
    by (simp add: spec_grid_to_lonlat_def spec_upper_index_def near_integer_def round_def Let_def
        ex_lat_def ex_lon_def py_round5_def round_half_even_def)
  have d: "grid_to_lonlat ex_self (9999999 / 10000000) 0 = Inr (11, 40)"
    by (simp add: grid_to_lonlat_grid_of [OF ex_rect ex_grids] in_index_range_def wrap_index_def
        upper_index_def py_int_def py_round5_def round_half_even_def ex_lat_def ex_lon_def)
  from a b c d show ?thesis by blast
qed

lemma py_int_ge: "real n \<le> x \<Longrightarrow> int n \<le> py_int x"
  by (simp add: py_int_def le_floor_iff)

lemma py_int_le: "x \<le> - real n - 1 \<Longrightarrow> py_int x < - int n"
proof -
  assume a: "x \<le> - real n - 1"
  then have "x < 0" by linarith
  then have "py_int x = - \<lfloor>- x\<rfloor>" by (simp add: py_int_def)
  moreover have "int n + 1 \<le> \<lfloor>- x\<rfloor>" using a by (simp add: le_floor_iff)
  ultimately show ?thesis by simp
qed

lemma upper_index_ge: "py_int x \<le> upper_index x"
  by (simp add: upper_index_def)

lemma upper_index_le: "upper_index x \<le> py_int x + 1"
  by (simp add: upper_index_def)

lemma index_range_wrapped:
  assumes "- real n \<le> x \<and> x \<le> - 1"
  shows "- int n \<le> py_int x \<and> upper_index x < int n"
proof -
  from assms have neg: "x < 0" and n: "1 \<le> int n" by linarith+
  from neg have p: "py_int x = - \<lfloor>- x\<rfloor>" by (simp add: py_int_def)
  from assms have "1 \<le> \<lfloor>- x\<rfloor>" by (simp add: le_floor_iff)
  moreover have "\<lfloor>- x\<rfloor> \<le> \<lfloor>real_of_int (int n)\<rfloor>"
    by (rule floor_mono) (use assms in simp)
  ultimately have "- int n \<le> py_int x" "py_int x \<le> - 1" unfolding p by simp_all
  with upper_index_le [of x] n show ?thesis by linarith
qed

lemma index_range_in_extent:
  assumes "0 \<le> x \<and> x \<le> real n - 1"
  shows "- int n \<le> py_int x \<and> upper_index x < int n"
proof -
  from assms have a: "0 \<le> x" "x \<le> real n - 1" by simp_all
  from a(1) have p: "py_int x = \<lfloor>x\<rfloor>" by (simp add: py_int_def)
  from upper_index_in_bounds [OF a] show ?thesis unfolding p by linarith
qed

text \<open>
  Claim C2, as amended.  On coordinate grids of \<open>nrows\<close> rows and \<open>ncols\<close> columns the
  mapper raises IndexError, and returns no pair, exactly when a corner index leaves
  Python's index range: \<open>int(x) < -ncols\<close>, or the second column index is \<open>\<ge> ncols\<close>, or
  \<open>int(y) < -nrows\<close>, or the second row index is \<open>\<ge> nrows\<close>.  It raises nothing else: in
  every other case it returns a pair.  So it raises for every \<open>x \<ge> ncols\<close>, \<open>y \<ge> nrows\<close>,
  \<open>x \<le> -ncols - 1\<close> and \<open>y \<le> -nrows - 1\<close>; and it returns a pair whenever \<open>x\<close> lies in
  \<open>[-ncols, -1]\<close> or in \<open>[0, ncols - 1]\<close> and \<open>y\<close> lies in \<open>[-nrows, -1]\<close> or in
  \<open>[0, nrows - 1]\<close>: a negative coordinate down to \<open>-ncols\<close> or \<open>-nrows\<close> is read from the
  cells counted from the end.
\<close>

theorem grid_to_lonlat_index_error:
  assumes "rect nrows ncols lat" and "rect nrows ncols lon"
    and "grid_lat self = Some (grid_of lat)" and "grid_lon self = Some (grid_of lon)"
  shows "(grid_to_lonlat self x y = Inl IndexError \<longleftrightarrow>
            py_int x < - int ncols \<or> int ncols \<le> upper_index x \<or>
            py_int y < - int nrows \<or> int nrows \<le> upper_index y) \<and>
         (grid_to_lonlat self x y = Inl IndexError \<or> (\<exists>lonlat. grid_to_lonlat self x y = Inr lonlat)) \<and>
         (real ncols \<le> x \<or> real nrows \<le> y \<or> x \<le> - real ncols - 1 \<or> y \<le> - real nrows - 1
            \<longrightarrow> grid_to_lonlat self x y = Inl IndexError) \<and>
         (((- real ncols \<le> x \<and> x \<le> - 1) \<or> (0 \<le> x \<and> x \<le> real ncols - 1)) \<and>
          ((- real nrows \<le> y \<and> y \<le> - 1) \<or> (0 \<le> y \<and> y \<le> real nrows - 1))
            \<longrightarrow> (\<exists>lonlat. grid_to_lonlat self x y = Inr lonlat))"
proof -
  note eq = grid_to_lonlat_grid_of [OF assms, of x y]
  have ux: "py_int x \<le> upper_index x" and uy: "py_int y \<le> upper_index y"
    by (rule upper_index_ge)+
  have iff: "grid_to_lonlat self x y = Inl IndexError \<longleftrightarrow>
            py_int x < - int ncols \<or> int ncols \<le> upper_index x \<or>
            py_int y < - int nrows \<or> int nrows \<le> upper_index y"
    unfolding eq in_index_range_def using ux uy by auto
  have total: "grid_to_lonlat self x y = Inl IndexError \<or> (\<exists>lonlat. grid_to_lonlat self x y = Inr lonlat)"
    unfolding eq by simp
  have far: "grid_to_lonlat self x y = Inl IndexError"
    if "real ncols \<le> x \<or> real nrows \<le> y \<or> x \<le> - real ncols - 1 \<or> y \<le> - real nrows - 1"
  proof -
    from that consider "real ncols \<le> x" | "real nrows \<le> y" | "x \<le> - real ncols - 1" | "y \<le> - real nrows - 1"
      by blast
    then have "py_int x < - int ncols \<or> int ncols \<le> upper_index x \<or>
            py_int y < - int nrows \<or> int nrows \<le> upper_index y"
    proof cases
      case 1
      from py_int_ge [OF 1] ux show ?thesis by linarith
    next
      case 2
      from py_int_ge [OF 2] uy show ?thesis by linarith
    next
      case 3
      from py_int_le [OF 3] show ?thesis by simp
    next
      case 4
      from py_int_le [OF 4] show ?thesis by simp
    qed
    with iff show ?thesis by simp
  qed
  have near: "\<exists>lonlat. grid_to_lonlat self x y = Inr lonlat"
    if "((- real ncols \<le> x \<and> x \<le> - 1) \<or> (0 \<le> x \<and> x \<le> real ncols - 1)) \<and>
        ((- real nrows \<le> y \<and> y \<le> - 1) \<or> (0 \<le> y \<and> y \<le> real nrows - 1))"
  proof -
    from that have hx: "(- real ncols \<le> x \<and> x \<le> - 1) \<or> (0 \<le> x \<and> x \<le> real ncols - 1)"
      and hy: "(- real nrows \<le> y \<and> y \<le> - 1) \<or> (0 \<le> y \<and> y \<le> real nrows - 1)"
      by blast+
    from hx have "- int ncols \<le> py_int x \<and> upper_index x < int ncols"
      using index_range_wrapped [of ncols x] index_range_in_extent [of x ncols] by blast
    moreover from hy have "- int nrows \<le> py_int y \<and> upper_index y < int nrows"
      using index_range_wrapped [of nrows y] index_range_in_extent [of y nrows] by blast
    ultimately have "grid_to_lonlat self x y \<noteq> Inl IndexError"
      unfolding iff by linarith
    with total show ?thesis by blast
  qed
  from iff total far near show ?thesis by blast
qed

theorem grid_to_lonlat_index_error_witness:
  "rect 2 2 ex_lat \<and> rect 2 2 ex_lon \<and>
   grid_lat ex_self = Some (grid_of ex_lat) \<and> grid_lon ex_self = Some (grid_of ex_lon) \<and>
   real 2 \<le> (5 / 2 :: real) \<and> grid_to_lonlat ex_self (5 / 2) 0 = Inl IndexError \<and>
   - real 2 \<le> (- 2 :: real) \<and> (- 2 :: real) \<le> - 1 \<and> (0 :: real) \<le> 0 \<and> (0 :: real) \<le> real 2 - 1 \<and>
   (\<exists>lonlat. grid_to_lonlat ex_self (- 2) 0 = Inr lonlat)"
proof -
  have "grid_to_lonlat ex_self (5 / 2) 0 = Inl IndexError"
    using grid_to_lonlat_index_error [OF ex_rect ex_grids, of "5 / 2" 0] by simp
  moreover have "\<exists>lonlat. grid_to_lonlat ex_self (- 2) 0 = Inr lonlat"
    using grid_to_lonlat_index_error [OF ex_rect ex_grids, of "- 2" 0] by simp
  ultimately show ?thesis using ex_rect ex_grids by simp
qed

text \<open>
  The claim as the specification states it fails: on the two by two grid, \<open>x = -1/2\<close> is
  outside the extent and the mapper returns a pair extrapolated beyond the grid; \<open>x = -1\<close>
  wraps to the last column; \<open>x = 1.000001\<close> is above the last column and is read as the
  last column.
\<close>

theorem grid_to_lonlat_out_of_bounds_counterexample:
  "\<not> (\<forall>x y. x < 0 \<or> real 2 - 1 < x \<or> y < 0 \<or> real 2 - 1 < y
        \<longrightarrow> (\<exists>err. grid_to_lonlat ex_self x y = Inl err)) \<and>
   grid_to_lonlat ex_self (- 1 / 2) 0 = Inr (19 / 2, 40) \<and>
   grid_to_lonlat ex_self (- 1) 0 = Inr (11, 40) \<and>
   grid_to_lonlat ex_self (1000001 / 1000000) 0 = Inr (11, 40)"
proof -
  have a: "grid_to_lonlat ex_self (- 1 / 2) 0 = Inr (19 / 2, 40)"
    by (simp add: grid_to_lonlat_grid_of [OF ex_rect ex_grids] in_index_range_def wrap_index_def
        upper_index_def py_int_def py_round5_def round_half_even_def ex_lat_def ex_lon_def)
  have b: "grid_to_lonlat ex_self (- 1) 0 = Inr (11, 40)"
    by (simp add: grid_to_lonlat_grid_of [OF ex_rect ex_grids] in_index_range_def wrap_index_def
        upper_index_def py_int_def py_round5_def round_half_even_def ex_lat_def ex_lon_def)
  have c: "grid_to_lonlat ex_self (1000001 / 1000000) 0 = Inr (11, 40)"
    by (simp add: grid_to_lonlat_grid_of [OF ex_rect ex_grids] in_index_range_def wrap_index_def
        upper_index_def py_int_def py_round5_def round_half_even_def ex_lat_def ex_lon_def)
  have "\<not> (\<forall>x y. x < 0 \<or> real 2 - 1 < x \<or> y < 0 \<or> real 2 - 1 < y
        \<longrightarrow> (\<exists>err. grid_to_lonlat ex_self x y = Inl err))"
  proof
    assume "\<forall>x y. x < 0 \<or> real 2 - 1 < x \<or> y < 0 \<or> real 2 - 1 < y
        \<longrightarrow> (\<exists>err. grid_to_lonlat ex_self x y = Inl err)"
    then have "(- 1 / 2 :: real) < 0 \<longrightarrow> (\<exists>err. grid_to_lonlat ex_self (- 1 / 2) 0 = Inl err)"
      by blast
    with a show False by simp
  qed
  with a b c show ?thesis by blast
qed

lemma polygon_to_coord_array_Inr_iff:
  "polygon_to_coord_array self ring = Inr pts \<longleftrightarrow>
     length pts = length ring \<and>
     (\<forall>i < length ring. grid_to_lonlat self (fst (ring ! i)) (snd (ring ! i)) = Inr (pts ! i))"
proof (induction ring arbitrary: pts)
  case Nil
  then show ?case by auto
next
  case (Cons p ring)
  show ?case
  proof (cases pts)
    case Nil
    then show ?thesis by (auto simp: bind_result_eq_Inr)
  next
    case (Cons q qs)
    have "polygon_to_coord_array self (p # ring) = Inr (q # qs) \<longleftrightarrow>
          grid_to_lonlat self (fst p) (snd p) = Inr q \<and> polygon_to_coord_array self ring = Inr qs"
      by (cases q) (auto simp: bind_result_eq_Inr)
    also have "\<dots> \<longleftrightarrow> grid_to_lonlat self (fst p) (snd p) = Inr q \<and> length qs = length ring \<and>
        (\<forall>i < length ring. grid_to_lonlat self (fst (ring ! i)) (snd (ring ! i)) = Inr (qs ! i))"
      by (simp only: Cons.IH)
    also have "\<dots> \<longleftrightarrow> length (q # qs) = length (p # ring) \<and>
        (\<forall>i < length (p # ring). grid_to_lonlat self (fst ((p # ring) ! i)) (snd ((p # ring) ! i)) = Inr ((q # qs) ! i))"
      by (auto simp: nth_Cons split: nat.splits)
    finally show ?thesis unfolding Cons .
  qed
qed

lemma grid_to_lonlat_in_extent:
  assumes "rect nrows ncols lat" and "rect nrows ncols lon"
    and "grid_lat self = Some (grid_of lat)" and "grid_lon self = Some (grid_of lon)"
    and "in_extent nrows ncols p"
  shows "\<exists>q. grid_to_lonlat self (fst p) (snd p) = Inr q"
proof -
  from assms(5) have b: "0 \<le> fst p" "fst p \<le> real ncols - 1" "0 \<le> snd p" "snd p \<le> real nrows - 1"
    by (simp_all add: in_extent_def)
  note bx = upper_index_in_bounds [OF b(1,2)]
  note by' = upper_index_in_bounds [OF b(3,4)]
  have px: "py_int (fst p) = \<lfloor>fst p\<rfloor>" and py: "py_int (snd p) = \<lfloor>snd p\<rfloor>"
    using b by (simp_all add: py_int_def)
  have "in_index_range ncols (py_int (fst p))" "in_index_range ncols (upper_index (fst p))"
    "in_index_range nrows (py_int (snd p))" "in_index_range nrows (upper_index (snd p))"
    unfolding in_index_range_def px py using bx by' by linarith+
  then show ?thesis
    unfolding grid_to_lonlat_grid_of [OF assms(1-4)] by simp
qed

lemma polygon_to_coord_array_in_extent:
  assumes "rect nrows ncols lat" and "rect nrows ncols lon"
    and "grid_lat self = Some (grid_of lat)" and "grid_lon self = Some (grid_of lon)"
    and "list_all (in_extent nrows ncols) ring"
  shows "\<exists>pts. polygon_to_coord_array self ring = Inr pts"
  using assms(5)
proof (induction ring)
  case Nil
  then show ?case by simp
next
  case (Cons p ring)
  then obtain pts where pts: "polygon_to_coord_array self ring = Inr pts" by auto
  from Cons.prems have "in_extent nrows ncols p" by simp
  from grid_to_lonlat_in_extent [OF assms(1-4) this]
  obtain q where "grid_to_lonlat self (fst p) (snd p) = Inr q" ..
  with pts show ?case by simp
qed

text \<open>
  Claim C7.  The ring transform returns \<open>pts\<close> exactly when \<open>pts\<close> has the length of the
  ring and its point \<open>i\<close> is the mapped vertex \<open>i\<close>: the order is kept, nothing is removed
  and nothing is appended.  It does return, with a ring of the same length, whenever every
  vertex lies inside the extent of the grids; and the empty ring gives the empty ring.
\<close>

theorem polygon_to_coord_array_length_order:
  "(polygon_to_coord_array self ring = Inr pts \<longleftrightarrow>
      length pts = length ring \<and>
      (\<forall>i < length ring. grid_to_lonlat self (fst (ring ! i)) (snd (ring ! i)) = Inr (pts ! i))) \<and>
   (rect nrows ncols lat \<and> rect nrows ncols lon \<and>
    grid_lat self = Some (grid_of lat) \<and> grid_lon self = Some (grid_of lon) \<and>
    list_all (in_extent nrows ncols) ring
      \<longrightarrow> (\<exists>out. polygon_to_coord_array self ring = Inr out \<and> length out = length ring)) \<and>
   polygon_to_coord_array self [] = Inr []"
proof -
  have "\<exists>out. polygon_to_coord_array self ring = Inr out \<and> length out = length ring"
    if "rect nrows ncols lat \<and> rect nrows ncols lon \<and>
    grid_lat self = Some (grid_of lat) \<and> grid_lon self = Some (grid_of lon) \<and>
    list_all (in_extent nrows ncols) ring"
  proof -
    from that polygon_to_coord_array_in_extent [of nrows ncols lat lon self ring]
    obtain out where "polygon_to_coord_array self ring = Inr out" by blast
    then show ?thesis using polygon_to_coord_array_Inr_iff [of self ring out] by blast
  qed
  then show ?thesis
    using polygon_to_coord_array_Inr_iff [of self ring pts] by simp
qed

theorem polygon_to_coord_array_length_order_witness:
  "rect 2 2 ex_lat \<and> rect 2 2 ex_lon \<and>
   grid_lat ex_self = Some (grid_of ex_lat) \<and> grid_lon ex_self = Some (grid_of ex_lon) \<and>
   list_all (in_extent 2 2) ex_ring \<and>
   polygon_to_coord_array ex_self ex_ring = Inr [(10, 40), (11, 40), (11, 41), (10, 41)] \<and>
   length [(10, 40), (11, 40), (11, 41), (10 :: real, 41 :: real)] = length ex_ring"
proof -
  have ext: "list_all (in_extent 2 2) ex_ring"
    by (simp add: ex_ring_def in_extent_def)
  have p: "grid_to_lonlat ex_self 0 0 = Inr (10, 40)" "grid_to_lonlat ex_self 1 0 = Inr (11, 40)"
    "grid_to_lonlat ex_self 1 1 = Inr (11, 41)" "grid_to_lonlat ex_self 0 1 = Inr (10, 41)"
    by (simp_all add: grid_to_lonlat_grid_of [OF ex_rect ex_grids] in_index_range_def wrap_index_def
        upper_index_def py_int_def py_round5_def round_half_even_def ex_lat_def ex_lon_def)
  have "\<forall>i < length ex_ring. grid_to_lonlat ex_self (fst (ex_ring ! i)) (snd (ex_ring ! i)) =
      Inr ([(10, 40), (11, 40), (11, 41), (10, 41)] ! i)"
    using p by (simp add: ex_ring_def nth_Cons less_Suc_eq split: nat.splits)
  then have "polygon_to_coord_array ex_self ex_ring = Inr [(10, 40), (11, 40), (11, 41), (10, 41)]"
    using polygon_to_coord_array_length_order [of ex_self ex_ring "[(10, 40), (11, 40), (11, 41), (10, 41)]"]
    by (simp add: ex_ring_def)
  with ex_rect ex_grids ext show ?thesis by (simp add: ex_ring_def)
qed

section \<open>Properties of the contour levels\<close>

lemma range_from_nth:
  "k < length (range_from i stop step) \<Longrightarrow> range_from i stop step ! k = i + int k * step"
proof (induction i stop step arbitrary: k rule: range_from.induct)
  case (1 i stop step)
  show ?case
  proof (cases "(0 < step \<and> i < stop) \<or> (step < 0 \<and> stop < i)")
    case False
    with "1.prems" show ?thesis by (simp add: range_from.simps [of i stop step])
  next
    case True
    then have eq: "range_from i stop step = i # range_from (i + step) stop step"
      by (simp add: range_from.simps [of i stop step])
    show ?thesis
    proof (cases k)
      case 0
      then show ?thesis by (simp add: eq)
    next
      case (Suc j)
      with "1.prems" eq have "j < length (range_from (i + step) stop step)" by simp
      from "1.IH" [OF True this] show ?thesis by (simp add: eq Suc algebra_simps)
    qed
  qed
qed

lemma range_from_length_pos:
  "0 < step \<Longrightarrow> int (length (range_from i stop step)) = (if i < stop then (stop - i + step - 1) div step else 0)"
proof (induction i stop step rule: range_from.induct)
  case (1 i stop step)
  show ?case
  proof (cases "i < stop")
    case False
    with "1.prems" show ?thesis by (simp add: range_from.simps [of i stop step])
  next
    case True
    with "1.prems" have c: "(0 < step \<and> i < stop) \<or> (step < 0 \<and> stop < i)" by simp
    then have eq: "range_from i stop step = i # range_from (i + step) stop step"
      by (simp add: range_from.simps [of i stop step])
    have ih: "int (length (range_from (i + step) stop step)) =
        (if i + step < stop then (stop - (i + step) + step - 1) div step else 0)"
      using "1.IH" [OF c "1.prems"] .
    show ?thesis
    proof (cases "i + step < stop")
      case True
      have "(stop - i + step - 1) div step = (stop - (i + step) + step - 1 + step) div step"
        by (simp add: algebra_simps)
      also have "\<dots> = (stop - (i + step) + step - 1) div step + 1"
        using "1.prems" by simp
      finally show ?thesis using True \<open>i < stop\<close> ih eq by simp
    next
      case False
      with \<open>i < stop\<close> "1.prems" have "0 \<le> stop - i - 1" "stop - i - 1 < step" by simp_all
      then have "(stop - i - 1 + step) div step = 1"
        using "1.prems" by simp
      moreover have "stop - i + step - 1 = stop - i - 1 + step" by simp
      ultimately have "(stop - i + step - 1) div step = 1" by (simp only:)
      with False \<open>i < stop\<close> ih eq show ?thesis by simp
    qed
  qed
qed

lemma range_from_bounds_pos:
  "0 < step \<Longrightarrow> e \<in> set (range_from i stop step) \<Longrightarrow> i \<le> e \<and> e < stop"
proof (induction i stop step rule: range_from.induct)
  case (1 i stop step)
  show ?case
  proof (cases "(0 < step \<and> i < stop) \<or> (step < 0 \<and> stop < i)")
    case False
    with "1.prems" show ?thesis by (simp add: range_from.simps [of i stop step])
  next
    case True
    then have eq: "range_from i stop step = i # range_from (i + step) stop step"
      by (simp add: range_from.simps [of i stop step])
    from "1.prems"(2) eq consider "e = i" | "e \<in> set (range_from (i + step) stop step)" by auto
    then show ?thesis
    proof cases
      case 1
      with True "1.prems"(1) show ?thesis by simp
    next
      case 2
      from "1.IH" [OF True "1.prems"(1) 2] "1.prems"(1) show ?thesis by simp
    qed
  qed
qed

lemma ex_levels_range: "range_from 0 20 5 = [0, 5, 10, 15]"
  by (simp add: range_from.simps [of _ 20 5])

lemma levels_eq:
  "levels rd self =
     (if py_int (rd (contour_interval self * 10)) = 0 then Inl ValueError
      else Inr (map (\<lambda>i. rd (of_int i / 10))
                 (range_from (py_int (rd (min_value self * 10))) (py_int (rd (max_value self * 10)))
                    (py_int (rd (contour_interval self * 10))))))"
  by (simp add: levels_def py_range_def Let_def)

lemma exact_on_doubles_int:
  assumes "exact_on_doubles rd" "\<bar>m\<bar> < 2 ^ 53"
  shows "rd (of_int m) = of_int m"
  using assms(1) [unfolded exact_on_doubles_def, rule_format, of m 0] assms(2) by simp

lemma exact_on_doubles_half:
  assumes "exact_on_doubles rd" "\<bar>m\<bar> < 2 ^ 53"
  shows "rd (of_int m / 2) = of_int m / 2"
  using assms(1) [unfolded exact_on_doubles_def, rule_format, of m 1] assms(2) by simp

text \<open>
  Claim C5.  With \<open>a = int(min * 10)\<close>, \<open>b = int(max * 10)\<close> and
  \<open>c = int(contour_interval * 10)\<close>, the truncated tenths of the rounded products, the list
  of levels is the integer range from \<open>a\<close> to \<open>b\<close> by \<open>c\<close> with every element divided by ten:
  level \<open>k\<close> is the quotient \<open>(a + k * c) / 10\<close> of an exact integer, rounded once, whatever
  the rounding of the float operations is.  No level depends on another one and no sum
  of floats is formed, so no rounding error accumulates: when the rounding has the
  relative error \<open>u\<close>, every level is within the relative error \<open>u\<close> of its exact tenth,
  however far down the list it stands.  For a positive step there are
  \<open>\<lceil>(b - a) / c\<rceil>\<close> levels, over the integers from \<open>a\<close> up to, not including, \<open>b\<close>.  (A step
  that truncates to zero makes \<^verbatim>\<open>range\<close> raise ValueError.)  For \<open>min = 0.0\<close>, \<open>max = 2.0\<close>
  and an interval of \<open>0.5\<close>, with a rounding that leaves doubles as they are, the levels
  are exactly \<open>[0.0, 0.5, 1.0, 1.5]\<close>.
\<close>

theorem levels_fixed_point_tenths:
  "(let a = py_int (rd (min_value self * 10));
        b = py_int (rd (max_value self * 10));
        c = py_int (rd (contour_interval self * 10))
    in (c = 0 \<and> levels rd self = Inl ValueError) \<or>
       (c \<noteq> 0 \<and>
        (\<exists>ls. levels rd self = Inr ls \<and>
           (\<forall>k < length ls. ls ! k = rd (of_int (a + int k * c) / 10)) \<and>
           ((\<forall>v. \<bar>rd v - v\<bar> \<le> u * \<bar>v\<bar>) \<longrightarrow>
              (\<forall>k < length ls.
                 \<bar>ls ! k - of_int (a + int k * c) / 10\<bar> \<le> u * \<bar>of_int (a + int k * c) / 10\<bar>)) \<and>
           (0 < c \<longrightarrow>
              int (length ls) = (if a < b then (b - a + c - 1) div c else 0) \<and>
              (\<forall>k < length ls. a \<le> a + int k * c \<and> a + int k * c < b))))) \<and>
   (exact_on_doubles rd \<and> min_value self = 0 \<and> max_value self = 2 \<and> contour_interval self = 1 / 2
      \<longrightarrow> levels rd self = Inr [0, 1 / 2, 1, 3 / 2])"
proof -
  define a where "a = py_int (rd (min_value self * 10))"
  define b where "b = py_int (rd (max_value self * 10))"
  define c where "c = py_int (rd (contour_interval self * 10))"
  define ls :: "real list" where "ls = map (\<lambda>i. rd (of_int i / 10)) (range_from a b c)"
  have lev: "levels rd self = (if c = 0 then Inl ValueError else Inr ls)"
    unfolding levels_eq a_def b_def c_def ls_def ..
  have nth: "ls ! k = rd (of_int (a + int k * c) / 10)" if "k < length ls" for k
    using that unfolding ls_def by (simp add: range_from_nth)
  have err: "\<bar>ls ! k - of_int (a + int k * c) / 10\<bar> \<le> u * \<bar>of_int (a + int k * c) / 10\<bar>"
    if "\<forall>v. \<bar>rd v - v\<bar> \<le> u * \<bar>v\<bar>" "k < length ls" for k
    using that(1) unfolding nth [OF that(2)] by blast
  have len: "int (length ls) = (if a < b then (b - a + c - 1) div c else 0)" if "0 < c"
    unfolding ls_def using range_from_length_pos [OF that, of a b] by simp
  have bounds: "a \<le> a + int k * c \<and> a + int k * c < b" if "0 < c" "k < length ls" for k
  proof -
    from that(2) have k: "k < length (range_from a b c)" by (simp add: ls_def)
    then have "range_from a b c ! k \<in> set (range_from a b c)" by simp
    then have "a + int k * c \<in> set (range_from a b c)"
      by (simp only: range_from_nth [OF k])
    from range_from_bounds_pos [OF that(1) this] show ?thesis .
  qed
  have general: "(c = 0 \<and> levels rd self = Inl ValueError) \<or>
       (c \<noteq> 0 \<and>
        (\<exists>ls. levels rd self = Inr ls \<and>
           (\<forall>k < length ls. ls ! k = rd (of_int (a + int k * c) / 10)) \<and>
           ((\<forall>v. \<bar>rd v - v\<bar> \<le> u * \<bar>v\<bar>) \<longrightarrow>
              (\<forall>k < length ls.
                 \<bar>ls ! k - of_int (a + int k * c) / 10\<bar> \<le> u * \<bar>of_int (a + int k * c) / 10\<bar>)) \<and>
           (0 < c \<longrightarrow>
              int (length ls) = (if a < b then (b - a + c - 1) div c else 0) \<and>
              (\<forall>k < length ls. a \<le> a + int k * c \<and> a + int k * c < b))))"
  proof (cases "c = 0")
    case True
    with lev show ?thesis by simp
  next
    case False
    with lev have "levels rd self = Inr ls" by simp
    with False nth err len bounds show ?thesis by blast
  qed
  have example: "levels rd self = Inr [0, 1 / 2, 1, 3 / 2]"
    if h: "exact_on_doubles rd \<and> min_value self = 0 \<and> max_value self = 2 \<and> contour_interval self = 1 / 2"
  proof -
    from h have ex: "exact_on_doubles rd" by simp
    have i: "rd 0 = 0" "rd 20 = 20" "rd 5 = 5" "rd 1 = 1"
      using exact_on_doubles_int [OF ex, of 0] exact_on_doubles_int [OF ex, of 20]
        exact_on_doubles_int [OF ex, of 5] exact_on_doubles_int [OF ex, of 1] by simp_all
    have q: "rd (1 / 2) = 1 / 2" "rd (3 / 2) = 3 / 2"
      using exact_on_doubles_half [OF ex, of 1] exact_on_doubles_half [OF ex, of 3] by simp_all
    from h have f: "min_value self * 10 = 0" "max_value self * 10 = 20" "contour_interval self * 10 = 5"
      by simp_all
    have p: "py_int 0 = 0" "py_int 20 = 20" "py_int 5 = 5"
      by (simp_all add: py_int_def)
    show ?thesis
      unfolding levels_eq f i p by (simp add: ex_levels_range i q)
  qed
  from general example show ?thesis
    unfolding Let_def a_def b_def c_def by blast
qed

theorem levels_fixed_point_tenths_witness:
  "exact_on_doubles (round_double (ex_env [])) \<and>
   min_value ex_self = 0 \<and> max_value ex_self = 2 \<and> contour_interval ex_self = 1 / 2 \<and>
   levels (round_double (ex_env [])) ex_self = Inr [0, 1 / 2, 1, 3 / 2] \<and>
   py_int (round_double (ex_env []) (contour_interval ex_self * 10)) = 5 \<and>
   (\<forall>v. \<bar>round_double (ex_env []) v - v\<bar> \<le> 0 * \<bar>v\<bar>) \<and>
   \<bar>[0, 1 / 2, 1, 3 / 2 :: real] ! 3 - of_int (0 + int 3 * 5) / 10\<bar> \<le> 0 * \<bar>of_int (0 + int 3 * 5) / 10 :: real\<bar>"
proof -
  have v: "exact_on_doubles (round_double (ex_env [])) \<and>
      min_value ex_self = 0 \<and> max_value ex_self = 2 \<and> contour_interval ex_self = 1 / 2"
    by (simp add: ex_self_def init_GeoJson_def ex_env_def exact_on_doubles_def)
  note inst = levels_fixed_point_tenths [of "round_double (ex_env [])" ex_self 0, unfolded Let_def]
  from inst v
  have l: "levels (round_double (ex_env [])) ex_self = Inr [0, 1 / 2, 1, 3 / 2]"
    by blast
  have a: "py_int (round_double (ex_env []) (min_value ex_self * 10)) = 0"
    and c: "py_int (round_double (ex_env []) (contour_interval ex_self * 10)) = 5"
    by (simp_all add: ex_self_def init_GeoJson_def ex_env_def py_int_def)
  have u: "\<forall>v. \<bar>round_double (ex_env []) v - v\<bar> \<le> 0 * \<bar>v\<bar>"
    by (simp add: ex_env_def)
  from inst l c u
  have "\<forall>k < length [0, 1 / 2, 1, 3 / 2 :: real].
      \<bar>[0, 1 / 2, 1, 3 / 2 :: real] ! k - of_int (0 + int k * 5) / 10\<bar>
        \<le> 0 * \<bar>of_int (0 + int k * 5) / 10 :: real\<bar>"
    unfolding a c by auto
  then have "\<bar>[0, 1 / 2, 1, 3 / 2 :: real] ! 3 - of_int (0 + int 3 * 5) / 10\<bar>
      \<le> 0 * \<bar>of_int (0 + int 3 * 5) / 10 :: real\<bar>"
    by simp
  with v l c u show ?thesis by blast
qed

section \<open>Properties of the readers\<close>

lemma read_from_netcdf_zero:
  "read_from_netcdf e (self\<lparr>z_level := Some 0\<rparr>) = read_from_netcdf e (self\<lparr>z_level := None\<rparr>)"
  by (simp add: read_from_netcdf_def truthy_def)

lemma read_from_grib_zero:
  "read_from_grib e (self\<lparr>z_level := Some 0\<rparr>) = read_from_grib e (self\<lparr>z_level := None\<rparr>)"
  by (simp add: read_from_grib_def truthy_def)

lemma grid_to_lonlat_cong:
  "grid_lat s = grid_lat t \<Longrightarrow> grid_lon s = grid_lon t \<Longrightarrow> grid_to_lonlat s = grid_to_lonlat t"
  by (intro ext) (simp add: grid_to_lonlat_def)

lemma polygon_to_coord_array_cong:
  assumes "grid_lat s = grid_lat t" "grid_lon s = grid_lon t"
  shows "polygon_to_coord_array s ring = polygon_to_coord_array t ring"
  by (induction ring) (simp_all add: grid_to_lonlat_cong [OF assms])

lemma path_feature_cong:
  assumes "grid_lat s = grid_lat t" "grid_lon s = grid_lon t"
  shows "path_feature e s color path = path_feature e t color path"
proof -
  have "polygon_to_coord_array s = polygon_to_coord_array t"
    by (intro ext) (rule polygon_to_coord_array_cong [OF assms])
  then show ?thesis unfolding path_feature_def by (simp only:)
qed

lemma paths_loop_cong:
  assumes "grid_lat s = grid_lat t" "grid_lon s = grid_lon t"
  shows "paths_loop e s color paths acc = paths_loop e t color paths acc"
  by (induction paths arbitrary: acc) (simp_all add: path_feature_cong [OF assms])

lemma bands_loop_cong:
  assumes "grid_lat s = grid_lat t" "grid_lon s = grid_lon t"
  shows "bands_loop e s bands acc = bands_loop e t bands acc"
proof (induction bands arbitrary: acc)
  case Nil
  show ?case by simp
next
  case (Cons b bands)
  have "bands_loop e s bands = bands_loop e t bands"
    by (intro ext) (rule Cons.IH)
  then show ?case by (simp add: paths_loop_cong [OF assms])
qed

lemma convert_zero:
  "convert e (self\<lparr>z_level := Some 0\<rparr>) out_file = convert e (self\<lparr>z_level := None\<rparr>) out_file"
proof -
  have b: "bands_loop e (self\<lparr>z_level := Some 0, grid_lat := Some lat, grid_lon := Some lon\<rparr>) cs [] =
        bands_loop e (self\<lparr>z_level := None, grid_lat := Some lat, grid_lon := Some lon\<rparr>) cs []" for lat lon cs
    by (rule bands_loop_cong) simp_all
  have l: "levels (round_double e) (self\<lparr>z_level := Some 0, grid_lat := Some lat, grid_lon := Some lon\<rparr>) =
        levels (round_double e) (self\<lparr>z_level := None, grid_lat := Some lat, grid_lon := Some lon\<rparr>)" for lat lon
    by (simp add: levels_def)
  show ?thesis
    unfolding convert_def Let_def
    by (simp add: read_from_netcdf_zero read_from_grib_zero b l)
qed

lemma read_from_netcdf_unsliced:
  assumes "\<not> truthy (z_level self)" "read_from_netcdf e self = Inr (g, lat, lon)"
  shows "\<exists>wrf data. netcdf_dataset e (wrf_file self) = Inr wrf \<and> wrf (variable self) = Some data \<and>
           nd_index data 0 = Inr g"
  using assms
  by (auto simp: read_from_netcdf_def dataset_getitem_def bind_result_eq_Inr split: option.splits)

lemma read_from_grib_first:
  assumes "\<not> truthy (z_level self)" "read_from_grib e self = Inr (g, lat, lon)"
  shows "\<exists>wrf. pygrib_open e (wrf_file self) = Inr wrf \<and> py_index (wrf (variable self)) 0 = Inr g"
  using assms
  by (auto simp: read_from_grib_def grib_select_def bind_result_eq_Inr split: if_splits)

lemma read_from_netcdf_no_level:
  assumes "\<not> truthy (z_level self)"
    and "netcdf_dataset e (wrf_file self) = Inr ds" and "ds (variable self) = Some data"
    and "nd_index data 0 = Inr g"
    and "ds ''XLAT'' = Some xlat" and "nd_index xlat 0 = Inr lat"
    and "ds ''XLONG'' = Some xlong" and "nd_index xlong 0 = Inr lon"
  shows "read_from_netcdf e self = Inr (g, lat, lon)"
  using assms by (simp add: read_from_netcdf_def dataset_getitem_def)

lemma read_from_grib_no_level:
  assumes "\<not> truthy (z_level self)"
    and "pygrib_open e (wrf_file self) = Inr msgs" and "msgs (variable self) = first_msg # others"
    and "msgs ''nlat'' = la # las" and "msgs ''elon'' = lo # los"
  shows "read_from_grib e self = Inr (first_msg, la, nd_minus lo 360)"
  using assms by (simp add: read_from_grib_def grib_select_def py_index_def)

lemma str_int_zero: "str_int 0 = ''0''"
  by code_simp

lemma product_futures_level_zero:
  "product_futures e wrf ftype var (p\<lparr>z_levels := Some [0]\<rparr>) =
     [submit e (init_GeoJson wrf ftype var (product_range p) (product_contour_interval p)
                  (product_palette p) (Some 0))
        (wrf @ ''_'' @ var @ ''_0.geojson.gz'')]"
  by (simp add: product_futures_def Let_def str_int_zero)

lemma product_futures_no_level:
  "product_futures e wrf ftype var (p\<lparr>z_levels := None\<rparr>) =
     [submit e (init_GeoJson wrf ftype var (product_range p) (product_contour_interval p)
                  (product_palette p) None)
        (wrf @ ''_'' @ var @ ''.geojson.gz'')]"
  by (simp add: product_futures_def Let_def)

lemma init_GeoJson_z_level:
  "init_GeoJson wrf ftype var value_range ci pal z =
     (init_GeoJson wrf ftype var value_range ci pal None)\<lparr>z_level := z\<rparr>"
  by (simp add: init_GeoJson_def)

lemma manual_product_zero:
  "manual_product e wrf ftype out_file var value_range ci pal (Some 0) =
     manual_product e wrf ftype out_file var value_range ci pal None"
  unfolding manual_product_def
  by (metis init_GeoJson_z_level convert_zero)

text \<open>
  Claim C9, as amended.  A converter built with \<open>z_level = 0\<close> converts as one built with
  no level: both readers test the level for its truth value, so they return the same
  grids, and \<^verbatim>\<open>convert\<close> and \<^verbatim>\<open>_manual_product\<close> give the same result.  With \<open>z_level = 0\<close>
  the NetCDF reader returns \<^verbatim>\<open>data[0]\<close>, the field at time index 0 without a vertical slice,
  with \<^verbatim>\<open>XLAT[0]\<close> and \<^verbatim>\<open>XLONG[0]\<close>; the GRIB2 reader returns the first message that
  \<^verbatim>\<open>select\<close> found, with the first latitude grid and the first longitude grid less 360.
  In batch mode the one task of a product whose levels are \<open>[0]\<close> runs the conversion of
  the product without levels, and is given the output file \<^verbatim>\<open><file>_<variable>_0.geojson.gz\<close>
  where the product without levels is given \<^verbatim>\<open><file>_<variable>.geojson.gz\<close>.
\<close>

theorem z_level_zero_converts_as_no_level:
  "read_from_netcdf e (self\<lparr>z_level := Some 0\<rparr>) = read_from_netcdf e (self\<lparr>z_level := None\<rparr>) \<and>
   read_from_grib e (self\<lparr>z_level := Some 0\<rparr>) = read_from_grib e (self\<lparr>z_level := None\<rparr>) \<and>
   convert e (self\<lparr>z_level := Some 0\<rparr>) out_file = convert e (self\<lparr>z_level := None\<rparr>) out_file \<and>
   manual_product e wrf ftype out_file var value_range ci pal (Some 0) =
     manual_product e wrf ftype out_file var value_range ci pal None \<and>
   (\<forall>ds data g xlat lat xlong lon.
      netcdf_dataset e (wrf_file self) = Inr ds \<and> ds (variable self) = Some data \<and>
      nd_index data 0 = Inr g \<and>
      ds ''XLAT'' = Some xlat \<and> nd_index xlat 0 = Inr lat \<and>
      ds ''XLONG'' = Some xlong \<and> nd_index xlong 0 = Inr lon
        \<longrightarrow> read_from_netcdf e (self\<lparr>z_level := Some 0\<rparr>) = Inr (g, lat, lon)) \<and>
   (\<forall>msgs first_msg others la las lo los.
      pygrib_open e (wrf_file self) = Inr msgs \<and> msgs (variable self) = first_msg # others \<and>
      msgs ''nlat'' = la # las \<and> msgs ''elon'' = lo # los
        \<longrightarrow> read_from_grib e (self\<lparr>z_level := Some 0\<rparr>) = Inr (first_msg, la, nd_minus lo 360)) \<and>
   (\<forall>g lat lon. read_from_netcdf e (self\<lparr>z_level := Some 0\<rparr>) = Inr (g, lat, lon) \<longrightarrow>
      (\<exists>ds data. netcdf_dataset e (wrf_file self) = Inr ds \<and> ds (variable self) = Some data \<and>
         nd_index data 0 = Inr g)) \<and>
   (\<forall>g lat lon. read_from_grib e (self\<lparr>z_level := Some 0\<rparr>) = Inr (g, lat, lon) \<longrightarrow>
      (\<exists>msgs. pygrib_open e (wrf_file self) = Inr msgs \<and> py_index (msgs (variable self)) 0 = Inr g)) \<and>
   product_futures e wrf ftype var (p\<lparr>z_levels := Some [0]\<rparr>) =
     [submit e (init_GeoJson wrf ftype var (product_range p) (product_contour_interval p)
                  (product_palette p) (Some 0))
        (wrf @ ''_'' @ var @ ''_0.geojson.gz'')] \<and>
   product_futures e wrf ftype var (p\<lparr>z_levels := None\<rparr>) =
     [submit e (init_GeoJson wrf ftype var (product_range p) (product_contour_interval p)
                  (product_palette p) None)
        (wrf @ ''_'' @ var @ ''.geojson.gz'')] \<and>
   outcome (submit e (init_GeoJson wrf ftype var value_range ci pal (Some 0)) out) =
     outcome (submit e (init_GeoJson wrf ftype var value_range ci pal None) out)"
proof -
  have n: "\<exists>ds data. netcdf_dataset e (wrf_file self) = Inr ds \<and> ds (variable self) = Some data \<and>
         nd_index data 0 = Inr g"
    if "read_from_netcdf e (self\<lparr>z_level := Some 0\<rparr>) = Inr (g, lat, lon)" for g lat lon
    using read_from_netcdf_unsliced [OF _ that] by (simp add: truthy_def)
  have g: "\<exists>msgs. pygrib_open e (wrf_file self) = Inr msgs \<and> py_index (msgs (variable self)) 0 = Inr g"
    if "read_from_grib e (self\<lparr>z_level := Some 0\<rparr>) = Inr (g, lat, lon)" for g lat lon
    using read_from_grib_first [OF _ that] by (simp add: truthy_def)
  have ne: "read_from_netcdf e (self\<lparr>z_level := Some 0\<rparr>) = Inr (g, lat, lon)"
    if "netcdf_dataset e (wrf_file self) = Inr ds \<and> ds (variable self) = Some data \<and>
      nd_index data 0 = Inr g \<and>
      ds ''XLAT'' = Some xlat \<and> nd_index xlat 0 = Inr lat \<and>
      ds ''XLONG'' = Some xlong \<and> nd_index xlong 0 = Inr lon" for ds data g xlat lat xlong lon
    using that
    by (intro read_from_netcdf_no_level [of _ e ds data g xlat lat xlong lon]) (simp_all add: truthy_def)
  have ge: "read_from_grib e (self\<lparr>z_level := Some 0\<rparr>) = Inr (first_msg, la, nd_minus lo 360)"
    if "pygrib_open e (wrf_file self) = Inr msgs \<and> msgs (variable self) = first_msg # others \<and>
      msgs ''nlat'' = la # las \<and> msgs ''elon'' = lo # los" for msgs first_msg others la las lo los
    using that
    by (intro read_from_grib_no_level [of _ e msgs first_msg others la las lo los]) (simp_all add: truthy_def)
  have o: "outcome (submit e (init_GeoJson wrf ftype var value_range ci pal (Some 0)) out) =
     outcome (submit e (init_GeoJson wrf ftype var value_range ci pal None) out)"
    unfolding submit_def by (simp, metis init_GeoJson_z_level convert_zero)
  from n g ne ge o read_from_netcdf_zero [of e self] read_from_grib_zero [of e self]
    convert_zero [of e self out_file]
    manual_product_zero [of e wrf ftype out_file var value_range ci pal]
    product_futures_level_zero [of e wrf ftype var p] product_futures_no_level [of e wrf ftype var p]
  show ?thesis by blast
qed

theorem z_level_zero_converts_as_no_level_witness:
  "read_from_netcdf (ex_env []) (ex_T (Some 0)) =
     Inr (Arr [grid_of [[0, 0], [0, 1]], grid_of [[2, 2], [2, 3]]], grid_of ex_lat, grid_of ex_lon) \<and>
   read_from_netcdf (ex_env []) (ex_T None) = read_from_netcdf (ex_env []) (ex_T (Some 0)) \<and>
   read_from_netcdf (ex_env []) (ex_T (Some 1)) =
     Inr (grid_of [[2, 2], [2, 3]], grid_of ex_lat, grid_of ex_lon) \<and>
   pygrib_open (ex_env []) (wrf_file (ex_grib None)) = Inr ex_messages \<and>
   ex_messages (variable (ex_grib None)) = [grid_of [[0, 0], [0, 1]], grid_of [[2, 2], [2, 3]]] \<and>
   read_from_grib (ex_env []) (ex_grib (Some 0)) =
     Inr (grid_of [[0, 0], [0, 1]], grid_of ex_lat, grid_of ex_lon) \<and>
   read_from_grib (ex_env []) (ex_grib None) = read_from_grib (ex_env []) (ex_grib (Some 0)) \<and>
   read_from_grib (ex_env []) (ex_grib (Some 1)) =
     Inr (grid_of [[2, 2], [2, 3]], grid_of ex_lat, grid_of ex_lon)"
proof -
  have z: "ex_T (Some 0) = (ex_T None)\<lparr>z_level := Some 0\<rparr>" "ex_T None = (ex_T None)\<lparr>z_level := None\<rparr>"
    "ex_grib (Some 0) = (ex_grib None)\<lparr>z_level := Some 0\<rparr>" "ex_grib None = (ex_grib None)\<lparr>z_level := None\<rparr>"
    by (simp_all add: ex_T_def ex_grib_def init_GeoJson_def)
  have r1: "read_from_netcdf (ex_env []) (ex_T (Some 1)) =
     Inr (grid_of [[2, 2], [2, 3]], grid_of ex_lat, grid_of ex_lon)"
    by (simp add: read_from_netcdf_def ex_T_def init_GeoJson_def ex_env_def ex_dataset_def
        dataset_getitem_def truthy_def py_index_def)
  have g1: "read_from_grib (ex_env []) (ex_grib (Some 1)) =
     Inr (grid_of [[2, 2], [2, 3]], grid_of ex_lat, grid_of ex_lon)"
    by (simp add: read_from_grib_def ex_grib_def init_GeoJson_def ex_env_def ex_messages_def
        grib_select_def truthy_def py_index_def grid_of_def ex_lat_def ex_lon_def)
  note t1 = z_level_zero_converts_as_no_level [of "ex_env []" "ex_T None", THEN conjunct1]
  note t5 = z_level_zero_converts_as_no_level [of "ex_env []" "ex_T None", THEN conjunct2,
    THEN conjunct2, THEN conjunct2, THEN conjunct2, THEN conjunct1, rule_format]
  note u2 = z_level_zero_converts_as_no_level [of "ex_env []" "ex_grib None", THEN conjunct2,
    THEN conjunct1]
  note u6 = z_level_zero_converts_as_no_level [of "ex_env []" "ex_grib None", THEN conjunct2,
    THEN conjunct2, THEN conjunct2, THEN conjunct2, THEN conjunct2, THEN conjunct1, rule_format]
  have nd: "netcdf_dataset (ex_env []) (wrf_file (ex_T None)) = Inr ex_dataset \<and>
      ex_dataset (variable (ex_T None)) = Some (Arr [Arr [grid_of [[0, 0], [0, 1]], grid_of [[2, 2], [2, 3]]]]) \<and>
      nd_index (Arr [Arr [grid_of [[0, 0], [0, 1]], grid_of [[2, 2], [2, 3]]]]) 0 =
        Inr (Arr [grid_of [[0, 0], [0, 1]], grid_of [[2, 2], [2, 3]]]) \<and>
      ex_dataset ''XLAT'' = Some (Arr [grid_of ex_lat]) \<and> nd_index (Arr [grid_of ex_lat]) 0 = Inr (grid_of ex_lat) \<and>
      ex_dataset ''XLONG'' = Some (Arr [grid_of ex_lon]) \<and> nd_index (Arr [grid_of ex_lon]) 0 = Inr (grid_of ex_lon)"
    by (simp add: ex_env_def ex_T_def init_GeoJson_def ex_dataset_def py_index_def)
  have r0: "read_from_netcdf (ex_env []) ((ex_T None)\<lparr>z_level := Some 0\<rparr>) =
     Inr (Arr [grid_of [[0, 0], [0, 1]], grid_of [[2, 2], [2, 3]]], grid_of ex_lat, grid_of ex_lon)"
    by (rule t5 [OF nd])
  have req: "read_from_netcdf (ex_env []) ((ex_T None)\<lparr>z_level := Some 0\<rparr>) =
      read_from_netcdf (ex_env []) ((ex_T None)\<lparr>z_level := None\<rparr>)"
    by (rule t1)
  have gd: "pygrib_open (ex_env []) (wrf_file (ex_grib None)) = Inr ex_messages"
    "ex_messages (variable (ex_grib None)) = [grid_of [[0, 0], [0, 1]], grid_of [[2, 2], [2, 3]]]"
    "ex_messages ''nlat'' = [grid_of ex_lat]"
    "ex_messages ''elon'' = [grid_of [[370, 371], [370, 371]]]"
    by (simp_all add: ex_env_def ex_grib_def init_GeoJson_def ex_messages_def)
  from gd have gc: "pygrib_open (ex_env []) (wrf_file (ex_grib None)) = Inr ex_messages \<and>
      ex_messages (variable (ex_grib None)) = grid_of [[0, 0], [0, 1]] # [grid_of [[2, 2], [2, 3]]] \<and>
      ex_messages ''nlat'' = grid_of ex_lat # [] \<and>
      ex_messages ''elon'' = grid_of [[370, 371], [370, 371]] # []"
    by simp
  have "read_from_grib (ex_env []) ((ex_grib None)\<lparr>z_level := Some 0\<rparr>) =
     Inr (grid_of [[0, 0], [0, 1]], grid_of ex_lat, nd_minus (grid_of [[370, 371], [370, 371]]) 360)"
    by (rule u6 [OF gc])
  moreover have "nd_minus (grid_of [[370, 371], [370, 371]]) 360 = grid_of ex_lon"
    by (simp add: grid_of_def ex_lon_def)
  ultimately have g0: "read_from_grib (ex_env []) ((ex_grib None)\<lparr>z_level := Some 0\<rparr>) =
     Inr (grid_of [[0, 0], [0, 1]], grid_of ex_lat, grid_of ex_lon)"
    by simp
  have geq: "read_from_grib (ex_env []) ((ex_grib None)\<lparr>z_level := Some 0\<rparr>) =
      read_from_grib (ex_env []) ((ex_grib None)\<lparr>z_level := None\<rparr>)"
    by (rule u2)
  from r0 req r1 g0 geq g1 gd(1,2) show ?thesis
    unfolding z(1) [symmetric] z(2) [symmetric] z(3) [symmetric] z(4) [symmetric] by simp
qed

text \<open>
  The claim as stated fails in batch mode: the scheduler names the output file by
  testing the level against None, so the task of level 0 writes
  \<^verbatim>\<open>wrfout_T_0.geojson.gz\<close> where the task without a level writes \<^verbatim>\<open>wrfout_T.geojson.gz\<close>.
\<close>

theorem z_level_zero_file_name_counterexample:
  "map written_path (product_futures (ex_env []) ''wrfout'' ''netcdf'' ''T'' (ex_product [0] (1 / 2))) =
     [Some ''wrfout_T_0.geojson.gz''] \<and>
   map written_path (product_futures (ex_env []) ''wrfout'' ''netcdf'' ''T'' ex_product_no_levels) =
     [Some ''wrfout_T.geojson.gz'']"
  by code_simp

section \<open>Properties of one conversion and of the batch\<close>

lemma convert_invalid:
  assumes "file_type self \<noteq> ''grib2''" "file_type self \<noteq> ''netcdf''"
  shows "convert e self out_file =
     Inr \<lparr>returned = None, written = None,
          logged_error = Some (''Invalid file type: '' @ file_type self @
                    ''.  Valid types are \"netcdf\" and \"grib2\".'')\<rparr>"
  using assms by (simp add: convert_def)

lemma submit_products_all:
  assumes "list_all (\<lambda>p. product_variable p ftype \<noteq> None) products"
  shows "submit_products e wrf ftype products acc =
     (acc @ concat (map (\<lambda>p. product_futures e wrf ftype (the (product_variable p ftype)) p) products), Inr ())"
  using assms by (induction products arbitrary: acc) auto

lemma automate_products_key_error:
  "product_variable p ftype = None \<Longrightarrow> automate_products e (p # products) wrf ftype = ([], Inl KeyError)"
  by (simp add: automate_products_def)

text \<open>
  Claim C8.  For a file type other than \<^verbatim>\<open>grib2\<close> and \<^verbatim>\<open>netcdf\<close>, \<^verbatim>\<open>convert\<close> itself does what
  the claim says (\<open>convert_invalid\<close>): it returns None, writes no file, logs the error and
  does not raise.  The batch call does not: with product definitions that have entries for
  \<^verbatim>\<open>grib2\<close> and \<^verbatim>\<open>netcdf\<close>, the lookup \<^verbatim>\<open>product[file_type]\<close> raises KeyError for the first
  product, no task is submitted, and the error ends the whole batch.
\<close>

theorem automate_products_unsupported_type:
  "automate_products (ex_env ex_bands) ex_products_one_failure ''wrfout'' ''hdf5'' = ([], Inl KeyError) \<and>
   convert (ex_env ex_bands) ex_hdf (Some ''out.geojson.gz'') =
     Inr \<lparr>returned = None, written = None,
          logged_error = Some ''Invalid file type: hdf5.  Valid types are \"netcdf\" and \"grib2\".''\<rparr>"
proof -
  have "product_variable (ex_product [1, 5] (1 / 2)) ''hdf5'' = None"
    by (simp add: ex_product_def)
  then have "automate_products (ex_env ex_bands) ex_products_one_failure ''wrfout'' ''hdf5'' =
      ([], Inl KeyError)"
    unfolding ex_products_one_failure_def by (rule automate_products_key_error)
  moreover have "convert (ex_env ex_bands) ex_hdf (Some ''out.geojson.gz'') =
     Inr \<lparr>returned = None, written = None,
          logged_error = Some ''Invalid file type: hdf5.  Valid types are \"netcdf\" and \"grib2\".''\<rparr>"
    by (simp add: convert_def ex_hdf_def init_GeoJson_def)
  ultimately show ?thesis by blast
qed

lemma wait_results_Inr_iff:
  "wait_results fs = Inr () \<longleftrightarrow> (\<forall>f \<in> set fs. \<exists>v. outcome f = Inr v)"
proof (induction fs)
  case Nil
  show ?case by simp
next
  case (Cons f fs)
  show ?case by (cases "outcome f") (simp_all add: Cons.IH)
qed

lemma wait_results_Inl_iff:
  "wait_results fs = Inl err \<longleftrightarrow>
     (\<exists>i < length fs. outcome (fs ! i) = Inl err \<and> (\<forall>j < i. \<exists>v. outcome (fs ! j) = Inr v))"
proof (induction fs)
  case Nil
  show ?case by simp
next
  case (Cons f fs)
  show ?case
  proof (cases "outcome f")
    case (Inl e)
    show ?thesis
    proof
      assume "wait_results (f # fs) = Inl err"
      with Inl have "e = err" by simp
      with Inl have "0 < length (f # fs) \<and> outcome ((f # fs) ! 0) = Inl err \<and>
          (\<forall>j < 0. \<exists>v. outcome ((f # fs) ! j) = Inr v)" by simp
      then show "\<exists>i < length (f # fs). outcome ((f # fs) ! i) = Inl err \<and>
          (\<forall>j < i. \<exists>v. outcome ((f # fs) ! j) = Inr v)" by blast
    next
      assume "\<exists>i < length (f # fs). outcome ((f # fs) ! i) = Inl err \<and>
          (\<forall>j < i. \<exists>v. outcome ((f # fs) ! j) = Inr v)"
      then obtain i where i: "i < length (f # fs)" "outcome ((f # fs) ! i) = Inl err"
        "\<forall>j < i. \<exists>v. outcome ((f # fs) ! j) = Inr v" by blast
      have "i = 0"
      proof (rule ccontr)
        assume "i \<noteq> 0"
        then have "0 < i" by simp
        with i(3) have "\<exists>v. outcome ((f # fs) ! 0) = Inr v" by blast
        with Inl show False by simp
      qed
      with i(2) Inl show "wait_results (f # fs) = Inl err" by simp
    qed
  next
    case (Inr v)
    have "wait_results (f # fs) = Inl err \<longleftrightarrow> wait_results fs = Inl err"
      using Inr by simp
    also have "\<dots> \<longleftrightarrow> (\<exists>i < length fs. outcome (fs ! i) = Inl err \<and> (\<forall>j < i. \<exists>v. outcome (fs ! j) = Inr v))"
      by (rule Cons.IH)
    also have "\<dots> \<longleftrightarrow> (\<exists>i < length (f # fs). outcome ((f # fs) ! i) = Inl err \<and>
          (\<forall>j < i. \<exists>v. outcome ((f # fs) ! j) = Inr v))"
    proof
      assume "\<exists>i < length fs. outcome (fs ! i) = Inl err \<and> (\<forall>j < i. \<exists>v. outcome (fs ! j) = Inr v)"
      then obtain i where i: "i < length fs" "outcome (fs ! i) = Inl err"
        "\<forall>j < i. \<exists>v. outcome (fs ! j) = Inr v" by blast
      have "\<forall>j < Suc i. \<exists>v. outcome ((f # fs) ! j) = Inr v"
        using i(3) Inr by (auto simp: nth_Cons split: nat.splits)
      with i(1,2) have "Suc i < length (f # fs) \<and> outcome ((f # fs) ! Suc i) = Inl err \<and>
          (\<forall>j < Suc i. \<exists>v. outcome ((f # fs) ! j) = Inr v)" by simp
      then show "\<exists>i < length (f # fs). outcome ((f # fs) ! i) = Inl err \<and>
          (\<forall>j < i. \<exists>v. outcome ((f # fs) ! j) = Inr v)" by blast
    next
      assume "\<exists>i < length (f # fs). outcome ((f # fs) ! i) = Inl err \<and>
          (\<forall>j < i. \<exists>v. outcome ((f # fs) ! j) = Inr v)"
      then obtain i where i: "i < length (f # fs)" "outcome ((f # fs) ! i) = Inl err"
        "\<forall>j < i. \<exists>v. outcome ((f # fs) ! j) = Inr v" by blast
      from i(2) Inr obtain k where k: "i = Suc k" by (cases i) auto
      from i(3) k have "\<forall>j < k. \<exists>v. outcome (fs ! j) = Inr v" by auto
      with i(1,2) k show "\<exists>i < length fs. outcome (fs ! i) = Inl err \<and> (\<forall>j < i. \<exists>v. outcome (fs ! j) = Inr v)"
        by auto
    qed
    finally show ?thesis .
  qed
qed

lemma product_futures_length:
  "length (product_futures e wrf ftype var p) = (case z_levels p of None \<Rightarrow> 1 | Some zs \<Rightarrow> length zs)"
  by (simp add: product_futures_def split: option.splits)

lemma product_futures_outcome:
  "f \<in> set (product_futures e wrf ftype var p) \<Longrightarrow>
     outcome f = convert e (task_converter f) (Some (task_out_file f))"
  by (auto simp: product_futures_def submit_def Let_def)

text \<open>
  Claim C1, as amended.  When every product definition names a variable for the file
  type, the batch call submits one task per product and level before it awaits any result,
  and the outcome of each task is that of its own conversion: no task is cancelled.  The
  results are then awaited in the order of submission.  The call returns normally exactly
  when every task succeeded; otherwise it raises the error of the first failed task in that
  order.  It returns no report of the tasks.
\<close>

theorem automate_products_first_failure:
  assumes "list_all (\<lambda>p. product_variable p ftype \<noteq> None) products"
  shows "(let fs = fst (automate_products e products wrf ftype);
              r = snd (automate_products e products wrf ftype)
          in length fs = sum_list (map (\<lambda>p. case z_levels p of None \<Rightarrow> 1 | Some zs \<Rightarrow> length zs) products) \<and>
             (\<forall>f \<in> set fs. outcome f = convert e (task_converter f) (Some (task_out_file f))) \<and>
             (r = Inr () \<longleftrightarrow> (\<forall>f \<in> set fs. \<exists>v. outcome f = Inr v)) \<and>
             (\<forall>err. r = Inl err \<longleftrightarrow>
                (\<exists>i < length fs. outcome (fs ! i) = Inl err \<and> (\<forall>j < i. \<exists>v. outcome (fs ! j) = Inr v))))"
proof -
  define fs where "fs = concat (map (\<lambda>p. product_futures e wrf ftype (the (product_variable p ftype)) p) products)"
  have s: "submit_products e wrf ftype products [] = (fs, Inr ())"
    unfolding fs_def using submit_products_all [OF assms, of e wrf "[]"] by simp
  have a: "automate_products e products wrf ftype = (fs, wait_results fs)"
    by (simp add: automate_products_def s)
  have len: "length fs = sum_list (map (\<lambda>p. case z_levels p of None \<Rightarrow> 1 | Some zs \<Rightarrow> length zs) products)"
    unfolding fs_def by (simp add: length_concat comp_def product_futures_length)
  have out: "\<forall>f \<in> set fs. outcome f = convert e (task_converter f) (Some (task_out_file f))"
    unfolding fs_def by (auto dest: product_futures_outcome)
  show ?thesis
    unfolding Let_def a fst_conv snd_conv
    using len out wait_results_Inr_iff [of fs] wait_results_Inl_iff [of fs] by blast
qed

theorem automate_products_first_failure_witness:
  "list_all (\<lambda>p. product_variable p ''netcdf'' \<noteq> None) ex_products_one_failure \<and>
   length (fst (automate_products (ex_env []) ex_products_one_failure ''wrfout'' ''netcdf'')) = 6 \<and>
   snd (automate_products (ex_env []) ex_products_one_failure ''wrfout'' ''netcdf'') \<noteq> Inr ()"
proof -
  have p: "list_all (\<lambda>p. product_variable p ''netcdf'' \<noteq> None) ex_products_one_failure"
    by (simp add: ex_products_one_failure_def ex_product_def)
  note inst = automate_products_first_failure [OF p, of "ex_env []" "''wrfout''", unfolded Let_def]
  have o: "outcome (submit (ex_env []) (init_GeoJson ''wrfout'' ''netcdf'' ''T'' (0, 2) (1 / 2) ''jet'' (Some 5)) path) = Inl IndexError" for path
    by (simp add: submit_def convert_def init_GeoJson_def read_from_netcdf_def ex_env_def ex_dataset_def
        dataset_getitem_def truthy_def py_index_def grid_of_def)
  have m: "submit (ex_env []) (init_GeoJson ''wrfout'' ''netcdf'' ''T'' (0, 2) (1 / 2) ''jet'' (Some 5))
             (''wrfout_T_'' @ str_int 5 @ ''.geojson.gz'')
           \<in> set (fst (automate_products (ex_env []) ex_products_one_failure ''wrfout'' ''netcdf''))"
    by (simp add: automate_products_def ex_products_one_failure_def ex_product_def product_futures_def Let_def)
  from inst have "length (fst (automate_products (ex_env []) ex_products_one_failure ''wrfout'' ''netcdf'')) = 6"
    by (simp add: ex_products_one_failure_def ex_product_def)
  moreover from inst m o
  have "snd (automate_products (ex_env []) ex_products_one_failure ''wrfout'' ''netcdf'') \<noteq> Inr ()"
    by (metis Inl_Inr_False)
  ultimately show ?thesis using p by blast
qed

text \<open>
  The claim as the specification states it fails.  Of six tasks the second cannot read
  its level: the other five succeed, and the batch call raises that IndexError instead of
  returning.  When the two tasks of the last product fail as well, with ValueError, the
  call ends in the same way: the later failures are never looked at.
\<close>

theorem automate_products_abort_counterexample:
  "snd (automate_products (ex_env []) ex_products_one_failure ''wrfout'' ''netcdf'') = Inl IndexError \<and>
   map failure (fst (automate_products (ex_env []) ex_products_one_failure ''wrfout'' ''netcdf'')) =
     [None, Some IndexError, None, None, None, None] \<and>
   snd (automate_products (ex_env []) ex_products_two_failures ''wrfout'' ''netcdf'') = Inl IndexError \<and>
   map failure (fst (automate_products (ex_env []) ex_products_two_failures ''wrfout'' ''netcdf'')) =
     [None, Some IndexError, None, None, Some ValueError, Some ValueError]"
  by code_simp

section \<open>Properties of the coordinate string\<close>

subsection \<open>Number literals consist of number characters\<close>

lemma is_digit_number_char: "is_digit c \<Longrightarrow> is_number_char c"
  by (simp add: is_number_char_def)

lemma digits_then_chars:
  assumes "digits_then k s" and "\<And>t. k t \<Longrightarrow> list_all is_number_char t"
  shows "list_all is_number_char s"
  using assms(1)
proof (induction s)
  case Nil
  then show ?case by simp
next
  case (Cons c cs)
  show ?case
  proof (cases "is_digit c")
    case True
    with Cons show ?thesis by (simp add: is_digit_number_char)
  next
    case False
    with Cons.prems have "k (c # cs)" by simp
    then show ?thesis by (rule assms(2))
  qed
qed

lemma digits1_then_chars:
  assumes "digits1_then k s" and "\<And>t. k t \<Longrightarrow> list_all is_number_char t"
  shows "list_all is_number_char s"
proof (cases s)
  case Nil
  then show ?thesis by simp
next
  case (Cons c cs)
  with assms(1) have "is_digit c" "digits_then k cs" by (simp_all add: digits1_then_def)
  with digits_then_chars [OF _ assms(2)] Cons show ?thesis by (simp add: is_digit_number_char)
qed

lemma exponent_part_chars: "exponent_part s \<Longrightarrow> list_all is_number_char s"
proof (cases s)
  case Nil
  then show ?thesis by simp
next
  case (Cons c cs)
  assume e: "exponent_part s"
  with Cons have c: "c = CHR ''e'' \<or> c = CHR ''E''" by (simp add: exponent_part_def)
  then have cn: "is_number_char c" by (auto simp: is_number_char_def)
  show ?thesis
  proof (cases cs)
    case Nil
    with e Cons show ?thesis by (simp add: exponent_part_def)
  next
    case (Cons d ds)
    show ?thesis
    proof (cases "d = CHR ''+'' \<or> d = CHR ''-''")
      case True
      with e \<open>s = c # cs\<close> Cons have "digits1_then (\<lambda>r. r = []) ds" by (auto simp: exponent_part_def)
      then have "list_all is_number_char ds" by (rule digits1_then_chars) simp
      moreover from True have "is_number_char d" by (auto simp: is_number_char_def)
      ultimately show ?thesis using cn \<open>s = c # cs\<close> Cons by simp
    next
      case False
      with e \<open>s = c # cs\<close> Cons have "digits1_then (\<lambda>r. r = []) cs" by (auto simp: exponent_part_def)
      then have "list_all is_number_char cs" by (rule digits1_then_chars) simp
      with cn \<open>s = c # cs\<close> show ?thesis by simp
    qed
  qed
qed

lemma fraction_part_chars: "fraction_part s \<Longrightarrow> list_all is_number_char s"
proof (cases s)
  case Nil
  then show ?thesis by simp
next
  case (Cons c cs)
  assume f: "fraction_part s"
  show ?thesis
  proof (cases "c = CHR ''.''")
    case True
    with f Cons have "digits1_then exponent_part cs" by (simp add: fraction_part_def)
    then have "list_all is_number_char cs" by (rule digits1_then_chars) (rule exponent_part_chars)
    with True Cons show ?thesis by (simp add: is_number_char_def)
  next
    case False
    with f Cons have "exponent_part s" by (simp add: fraction_part_def)
    then show ?thesis by (rule exponent_part_chars)
  qed
qed

lemma integer_part_chars: "integer_part s \<Longrightarrow> list_all is_number_char s \<and> s \<noteq> []"
proof (cases s)
  case Nil
  assume "integer_part s"
  with Nil show ?thesis by (simp add: integer_part_def)
next
  case (Cons c cs)
  assume i: "integer_part s"
  show ?thesis
  proof (cases "c = CHR ''0''")
    case True
    with i Cons have "fraction_part cs" by (simp add: integer_part_def)
    then have "list_all is_number_char cs" by (rule fraction_part_chars)
    with True Cons show ?thesis by (simp add: is_number_char_def is_digit_def)
  next
    case False
    with i Cons have "is_digit c" "digits_then fraction_part cs" by (simp_all add: integer_part_def)
    with digits_then_chars [OF _ fraction_part_chars] Cons show ?thesis
      by (simp add: is_digit_number_char)
  qed
qed

lemma json_number_chars: "json_number s \<Longrightarrow> list_all is_number_char s \<and> s \<noteq> []"
proof (cases s)
  case Nil
  assume "json_number s"
  with Nil show ?thesis by (simp add: json_number_def)
next
  case (Cons c cs)
  assume j: "json_number s"
  show ?thesis
  proof (cases "c = CHR ''-''")
    case True
    with j Cons have "integer_part cs" by (simp add: json_number_def)
    with integer_part_chars True Cons show ?thesis by (simp add: is_number_char_def)
  next
    case False
    with j Cons have "integer_part s" by (simp add: json_number_def)
    then show ?thesis by (rule integer_part_chars)
  qed
qed

subsection \<open>The scanner on rendered text\<close>

lemma scan_open [simp]: "scan [] (CHR ''['' # rest) = TOpen # scan [] rest"
  by (simp add: is_number_char_def is_digit_def is_ws_def flush_def)

lemma scan_close [simp]: "scan [] (CHR '']'' # rest) = TClose # scan [] rest"
  by (simp add: is_number_char_def is_digit_def is_ws_def flush_def)

lemma scan_comma [simp]: "scan [] (CHR '','' # rest) = TComma # scan [] rest"
  by (simp add: is_number_char_def is_digit_def is_ws_def flush_def)

lemma scan_space [simp]: "scan [] (CHR '' '' # rest) = scan [] rest"
  by (simp add: is_number_char_def is_digit_def is_ws_def flush_def)

lemma scan_number_chars:
  "list_all is_number_char s \<Longrightarrow> scan buf (s @ rest) = scan (rev s @ buf) rest"
  by (induction s arbitrary: buf) simp_all

lemma scan_number:
  assumes "list_all is_number_char s" "s \<noteq> []" "c = CHR '','' \<or> c = CHR '']''"
  shows "scan [] (s @ c # rest) = TNumber s # scan [] (c # rest)"
proof -
  from assms(3) have nc: "\<not> is_number_char c"
    by (auto simp: is_number_char_def is_digit_def)
  have "scan [] (s @ c # rest) = scan (rev s) (c # rest)"
    using scan_number_chars [OF assms(1), of "[]" "c # rest"] by simp
  also have "\<dots> = flush (rev s) @ scan [] (c # rest)"
    using nc by (simp add: flush_def)
  also have "flush (rev s) = [TNumber s]"
    using assms(2) by (simp add: flush_def)
  finally show ?thesis by simp
qed

subsection \<open>The parser on rendered text\<close>

declare scan.simps(2) [simp del]

lemma scan_ws: "list_all is_ws sp \<Longrightarrow> scan [] (sp @ rest) = scan [] rest"
proof (induction sp)
  case Nil
  show ?case by simp
next
  case (Cons c sp)
  then have w: "is_ws c" by simp
  then have "\<not> is_number_char c"
    by (auto simp: is_ws_def is_number_char_def is_digit_def)
  with w Cons show ?case by (simp add: scan.simps(2) flush_def)
qed

lemma join_Cons: "join sep (x # xs) = x @ concat (map (\<lambda>y. sep @ y) xs)"
  by (induction xs arbitrary: x) simp_all

lemma parses_as_number:
  assumes "reads_back repr_of value_of v"
  shows "parses_as value_of (repr_of v) (JNumber v)"
proof -
  from assms have j: "json_number (repr_of v)" and v: "value_of (repr_of v) = v"
    by (simp_all add: reads_back_def)
  from json_number_chars [OF j] have ch: "list_all is_number_char (repr_of v)" "repr_of v \<noteq> []"
    by simp_all
  show ?thesis
    unfolding parses_as_def
  proof (intro allI impI)
    fix c rest m frame stack
    assume a: "(c = CHR '','' \<or> c = CHR '']'') \<and> expects_value m"
    then have sc: "scan [] (repr_of v @ c # rest) = TNumber (repr_of v) # scan [] (c # rest)"
      using scan_number [OF ch] by blast
    show "parse_tokens value_of (m, frame # stack) (scan [] (repr_of v @ c # rest)) =
        parse_tokens value_of (AfterValue, (JNumber v # frame) # stack) (scan [] (c # rest))"
      unfolding sc using a j v by simp
  qed
qed

lemma parse_tail:
  assumes "list_all is_ws sp"
    and "\<forall>x \<in> set xs. parses_as value_of (item_str x) (item_json x)"
  shows "parse_tokens value_of (AfterValue, frame # stack)
           (scan [] (concat (map (\<lambda>y. (CHR '','' # sp) @ item_str y) xs) @ CHR '']'' # rest)) =
         parse_tokens value_of (add_value (JArray (rev frame @ map item_json xs)) stack) (scan [] rest)"
  using assms(2)
proof (induction xs arbitrary: frame)
  case Nil
  show ?case by simp
next
  case (Cons x xs)
  define tail where "tail = concat (map (\<lambda>y. (CHR '','' # sp) @ item_str y) xs) @ CHR '']'' # rest"
  obtain c tail' where t: "tail = c # tail'" "c = CHR '','' \<or> c = CHR '']''"
    unfolding tail_def by (cases xs) auto
  from Cons.prems have px: "parses_as value_of (item_str x) (item_json x)" by simp
  have "parse_tokens value_of (AfterValue, frame # stack)
           (scan [] (concat (map (\<lambda>y. (CHR '','' # sp) @ item_str y) (x # xs)) @ CHR '']'' # rest)) =
        parse_tokens value_of (AfterValue, frame # stack) (scan [] (CHR '','' # sp @ item_str x @ tail))"
    by (simp add: tail_def)
  also have "\<dots> = parse_tokens value_of (Value, frame # stack) (scan [] (item_str x @ tail))"
    by (simp add: scan_ws [OF assms(1)])
  also have "\<dots> = parse_tokens value_of (AfterValue, (item_json x # frame) # stack) (scan [] tail)"
    using px t unfolding parses_as_def by (simp add: expects_value_def)
  also have "\<dots> = parse_tokens value_of
      (add_value (JArray (rev (item_json x # frame) @ map item_json xs)) stack) (scan [] rest)"
    unfolding tail_def using Cons.prems by (intro Cons.IH) simp
  finally show ?case by simp
qed

lemma parse_list:
  assumes "list_all is_ws sp"
    and "\<forall>x \<in> set xs. parses_as value_of (item_str x) (item_json x)"
    and "expects_value m"
  shows "parse_tokens value_of (m, stack)
           (scan [] (CHR ''['' # join (CHR '','' # sp) (map item_str xs) @ CHR '']'' # rest)) =
         parse_tokens value_of (add_value (JArray (map item_json xs)) stack) (scan [] rest)"
proof (cases xs)
  case Nil
  with assms(3) show ?thesis by simp
next
  case (Cons x ys)
  define tail where "tail = concat (map (\<lambda>y. (CHR '','' # sp) @ item_str y) ys) @ CHR '']'' # rest"
  obtain c tail' where t: "tail = c # tail'" "c = CHR '','' \<or> c = CHR '']''"
    unfolding tail_def by (cases ys) auto
  from assms(2) Cons have px: "parses_as value_of (item_str x) (item_json x)"
    and pys: "\<forall>y \<in> set ys. parses_as value_of (item_str y) (item_json y)" by simp_all
  have "parse_tokens value_of (m, stack)
           (scan [] (CHR ''['' # join (CHR '','' # sp) (map item_str xs) @ CHR '']'' # rest)) =
        parse_tokens value_of (m, stack) (scan [] (CHR ''['' # item_str x @ tail))"
    unfolding Cons tail_def by (simp add: join_Cons comp_def)
  also have "\<dots> = parse_tokens value_of (ValueOrClose, [] # stack) (scan [] (item_str x @ tail))"
    using assms(3) by simp
  also have "\<dots> = parse_tokens value_of (AfterValue, [item_json x] # stack) (scan [] tail)"
    using px t unfolding parses_as_def by (simp add: expects_value_def)
  also have "\<dots> = parse_tokens value_of
      (add_value (JArray (rev [item_json x] @ map item_json ys)) stack) (scan [] rest)"
    unfolding tail_def by (rule parse_tail [OF assms(1) pys])
  finally show ?thesis by (simp add: Cons)
qed

lemma parses_as_list:
  assumes "list_all is_ws sp"
    and "\<forall>x \<in> set xs. parses_as value_of (item_str x) (item_json x)"
  shows "parses_as value_of (CHR ''['' # join (CHR '','' # sp) (map item_str xs) @ '']'')
           (JArray (map item_json xs))"
  unfolding parses_as_def
proof (intro allI impI)
  fix c rest m frame stack
  assume a: "(c = CHR '','' \<or> c = CHR '']'') \<and> expects_value m"
  then have m: "expects_value m" by simp
  have "parse_tokens value_of (m, frame # stack)
          (scan [] ((CHR ''['' # join (CHR '','' # sp) (map item_str xs) @ '']'') @ c # rest)) =
        parse_tokens value_of (m, frame # stack)
          (scan [] (CHR ''['' # join (CHR '','' # sp) (map item_str xs) @ CHR '']'' # c # rest))"
    by simp
  also have "\<dots> = parse_tokens value_of (add_value (JArray (map item_json xs)) (frame # stack))
          (scan [] (c # rest))"
    by (rule parse_list [OF assms m])
  finally show "parse_tokens value_of (m, frame # stack)
          (scan [] ((CHR ''['' # join (CHR '','' # sp) (map item_str xs) @ '']'') @ c # rest)) =
        parse_tokens value_of (AfterValue, (JArray (map item_json xs) # frame) # stack)
          (scan [] (c # rest))"
    by simp
qed

lemma str_list_eq: "str_list items = CHR ''['' # join (CHR '','' # '' '') items @ '']''"
  by (simp add: str_list_def)

lemma parses_as_point:
  assumes "reads_back repr_of value_of (fst point)" "reads_back repr_of value_of (snd point)"
  shows "parses_as value_of (str_list [repr_of (fst point), repr_of (snd point)]) (point_json point)"
proof -
  have ws: "list_all is_ws '' ''" by (simp add: is_ws_def)
  have items: "\<forall>v \<in> set [fst point, snd point]. parses_as value_of (repr_of v) (JNumber v)"
    using assms by (simp add: parses_as_number)
  from parses_as_list [OF ws items] show ?thesis
    by (simp add: str_list_eq point_json_def)
qed

lemma parses_as_ring:
  assumes "ring_reads_back repr_of value_of ring"
  shows "parses_as value_of (str_points repr_of ring) (ring_json ring)"
proof -
  have ws: "list_all is_ws '' ''" by (simp add: is_ws_def)
  have items: "\<forall>point \<in> set ring.
      parses_as value_of (str_list [repr_of (fst point), repr_of (snd point)]) (point_json point)"
    using assms by (auto simp: ring_reads_back_def list_all_iff intro: parses_as_point)
  from parses_as_list [OF ws items] show ?thesis
    by (simp add: str_points_def str_list_eq ring_json_def)
qed

lemma foldl_append_sep:
  "foldl (\<lambda>acc x. acc @ c # f x) acc xs = acc @ concat (map (\<lambda>x. c # f x) xs)"
  by (induction xs arbitrary: acc) simp_all

lemma multi_polygon_eq:
  "polygon_and_holes_to_multi_polygon repr_of polygon holes =
     CHR ''['' # join (CHR '','' # []) (map (str_points repr_of) (polygon # holes)) @ '']''"
  by (simp add: polygon_and_holes_to_multi_polygon_def Let_def foldl_append_sep join_Cons comp_def)

lemma json_loads_multi_polygon:
  assumes "ring_reads_back repr_of value_of polygon"
    and "list_all (ring_reads_back repr_of value_of) holes"
  shows "json_loads value_of (polygon_and_holes_to_multi_polygon repr_of polygon holes) =
           Inr (rings_json polygon holes)"
proof -
  have ws: "list_all is_ws []" by simp
  have items: "\<forall>ring \<in> set (polygon # holes). parses_as value_of (str_points repr_of ring) (ring_json ring)"
    using assms by (auto simp: list_all_iff intro: parses_as_ring)
  have v: "expects_value Value" by (simp add: expects_value_def)
  have "parse_tokens value_of (Value, [])
          (scan [] (polygon_and_holes_to_multi_polygon repr_of polygon holes)) =
        parse_tokens value_of (add_value (JArray (map ring_json (polygon # holes))) []) (scan [] [])"
    unfolding multi_polygon_eq
    using parse_list [OF ws items v, of "[]" "[]"] by simp
  also have "\<dots> = Some (Done (rings_json polygon holes), [])"
    by (simp add: rings_json_def flush_def)
  finally show ?thesis by (simp add: json_loads_def)
qed

text \<open>
  Claim C10.  For an outer ring and a list of holes whose coordinates are floats that
  \<^verbatim>\<open>repr\<close> renders as a JSON number literal with the float as its value (every finite float
  is one), reading the MultiPolygon coordinate string as JSON gives a list whose first
  element is the outer ring and whose following elements are the holes in their order,
  every ring a list of its points in order and every point the two-element list of its
  longitude and latitude.
\<close>

theorem multi_polygon_round_trip:
  assumes "ring_reads_back repr_of value_of polygon"
    and "list_all (ring_reads_back repr_of value_of) holes"
  shows "\<exists>loaded.
           json_loads value_of (polygon_and_holes_to_multi_polygon repr_of polygon holes) =
             Inr (JArray loaded) \<and>
           length loaded = Suc (length holes) \<and>
           loaded ! 0 = JArray (map (\<lambda>point. JArray [JNumber (fst point), JNumber (snd point)]) polygon) \<and>
           (\<forall>i < length holes.
              loaded ! Suc i =
                JArray (map (\<lambda>point. JArray [JNumber (fst point), JNumber (snd point)]) (holes ! i)))"
proof -
  define loaded where "loaded = map ring_json (polygon # holes)"
  have "json_loads value_of (polygon_and_holes_to_multi_polygon repr_of polygon holes) = Inr (JArray loaded)"
    unfolding loaded_def using json_loads_multi_polygon [OF assms] by (simp add: rings_json_def)
  moreover have "length loaded = Suc (length holes)"
    by (simp add: loaded_def)
  moreover have "loaded ! 0 = JArray (map (\<lambda>point. JArray [JNumber (fst point), JNumber (snd point)]) polygon)"
    by (simp add: loaded_def ring_json_def point_json_def)
  moreover have "loaded ! Suc i =
      JArray (map (\<lambda>point. JArray [JNumber (fst point), JNumber (snd point)]) (holes ! i))"
    if "i < length holes" for i
    using that by (simp add: loaded_def ring_json_def point_json_def)
  ultimately show ?thesis by blast
qed

theorem multi_polygon_round_trip_witness:
  "ring_reads_back ex_repr ex_number_value [(10, 40), (11, 40)] \<and>
   list_all (ring_reads_back ex_repr ex_number_value) [[(11, 41)], []] \<and>
   polygon_and_holes_to_multi_polygon ex_repr [(10, 40), (11, 40)] [[(11, 41)], []] =
     ''[[[10.0, 40.0], [11.0, 40.0]],[[11.0, 41.0]],[]]'' \<and>
   (\<exists>loaded. json_loads ex_number_value ''[[[10.0, 40.0], [11.0, 40.0]],[[11.0, 41.0]],[]]'' =
      Inr (JArray loaded) \<and>
      length loaded = 3 \<and>
      loaded ! 0 = JArray [JArray [JNumber 10, JNumber 40], JArray [JNumber 11, JNumber 40]] \<and>
      loaded ! 1 = JArray [JArray [JNumber 11, JNumber 41]] \<and>
      loaded ! 2 = JArray [])"
proof -
  have n: "json_number ''10.0''" "json_number ''11.0''" "json_number ''40.0''" "json_number ''41.0''"
    by (simp_all add: json_number_def integer_part_def fraction_part_def exponent_part_def
        digits1_then_def is_digit_def)
  have r: "reads_back ex_repr ex_number_value 10" "reads_back ex_repr ex_number_value 11"
    "reads_back ex_repr ex_number_value 40" "reads_back ex_repr ex_number_value 41"
    using n by (simp_all add: reads_back_def ex_repr_def ex_number_value_def)
  have a: "ring_reads_back ex_repr ex_number_value [(10, 40), (11, 40)]"
    using r by (simp add: ring_reads_back_def)
  have b: "list_all (ring_reads_back ex_repr ex_number_value) [[(11, 41)], []]"
    using r by (simp add: ring_reads_back_def)
  have s: "polygon_and_holes_to_multi_polygon ex_repr [(10, 40), (11, 40)] [[(11, 41)], []] =
     ''[[[10.0, 40.0], [11.0, 40.0]],[[11.0, 41.0]],[]]''"
    by (simp add: polygon_and_holes_to_multi_polygon_def str_points_def str_list_def ex_repr_def)
  from multi_polygon_round_trip [OF a b] obtain loaded where
    l: "json_loads ex_number_value (polygon_and_holes_to_multi_polygon ex_repr [(10, 40), (11, 40)] [[(11, 41)], []]) =
          Inr (JArray loaded)"
      "length loaded = Suc (length [[(11 :: real, 41 :: real)], []])"
      "loaded ! 0 = JArray (map (\<lambda>point. JArray [JNumber (fst point), JNumber (snd point)]) [(10, 40), (11, 40)])"
      "\<forall>i < length [[(11 :: real, 41 :: real)], []].
          loaded ! Suc i = JArray (map (\<lambda>point. JArray [JNumber (fst point), JNumber (snd point)])
            ([[(11, 41)], []] ! i))"
    by blast
  from l(4) have "loaded ! Suc 0 = JArray [JArray [JNumber 11, JNumber 41]]" "loaded ! Suc (Suc 0) = JArray []"
    by (simp_all add: nth_Cons)
  then have "loaded ! 1 = JArray [JArray [JNumber 11, JNumber 41]]" "loaded ! 2 = JArray []"
    by (simp_all add: numeral_2_eq_2)
  with l(1-3) have "json_loads ex_number_value ''[[[10.0, 40.0], [11.0, 40.0]],[[11.0, 41.0]],[]]'' =
      Inr (JArray loaded) \<and>
      length loaded = 3 \<and>
      loaded ! 0 = JArray [JArray [JNumber 10, JNumber 40], JArray [JNumber 11, JNumber 40]] \<and>
      loaded ! 1 = JArray [JArray [JNumber 11, JNumber 41]] \<and>
      loaded ! 2 = JArray []"
    unfolding s by simp
  with a b s show ?thesis by blast
qed

section \<open>Properties of the features\<close>


lemma path_feature_empty [simp]: "path_feature e self color [] = Inr None"
  by (simp add: path_feature_def)





lemma levels_grids [simp]:
  "levels rd (self\<lparr>grid_lat := a, grid_lon := b\<rparr>) = levels rd self"
  by (simp add: levels_def)

















end
